theory Spec2Isabelle
  imports Main "HOL-Library.AList"
begin

section \<open>Values exchanged with clients\<close>

text \<open>
  Room identifiers, user identities and display names are strings. A payload field that
  the client may leave out is a \<open>string option\<close>, \<open>None\<close> standing for JavaScript's
  \<open>undefined\<close>. The test \<open>!v\<close> of the handlers is \<open>\<not> truthy v\<close>: a missing field and the
  empty string are both falsy. The two room collections are JavaScript \<open>Map\<close>s; they are
  association lists kept in insertion order (\<open>AList.update\<close> replaces in place or appends,
  as \<open>Map.set\<close> does), because the disconnect sweep walks them in that order.
  The identity registry \<open>userSocketMap\<close> is written on connect and disconnect and read by
  no handler; it is left out.
\<close>

type_synonym roomid = string
type_synonym userid = string

definition truthy :: "string option \<Rightarrow> bool" where
  "truthy v = (case v of None \<Rightarrow> False | Some s \<Rightarrow> s \<noteq> [])"

text \<open>\<open>Map.get\<close> with a key that may be \<open>undefined\<close>: no room is stored under \<open>undefined\<close>.\<close>

definition map_get :: "(string \<times> 'a) list \<Rightarrow> string option \<Rightarrow> 'a option" where
  "map_get m k = (case k of None \<Rightarrow> None | Some r \<Rightarrow> map_of m r)"

text \<open>\<open>Array.prototype.indexOf\<close> on a list of identities; \<open>None\<close> is the result \<open>-1\<close>.\<close>

fun indexOf_from :: "userid list \<Rightarrow> userid \<Rightarrow> nat \<Rightarrow> nat option" where
  "indexOf_from [] u i = None"
| "indexOf_from (p # ps) u i = (if p = u then Some i else indexOf_from ps u (Suc i))"

definition indexOf :: "userid list \<Rightarrow> userid option \<Rightarrow> nat option" where
  "indexOf ps u = (case u of None \<Rightarrow> None | Some v \<Rightarrow> indexOf_from ps v 0)"

text \<open>\<open>players.splice(playerIndex, 1)\<close>: the element at that position is taken out.\<close>

definition splice1 :: "'a list \<Rightarrow> nat \<Rightarrow> 'a list" where
  "splice1 xs i = take i xs @ drop (Suc i) xs"

datatype target = ToSender | ToRoom roomid

record socket =
  userId :: "userid option"
  rooms :: "roomid list"

text \<open>\<open>socket.join(roomId)\<close>: the connection becomes a member of the transport room.\<close>

definition socket_join :: "socket \<Rightarrow> roomid \<Rightarrow> socket" where
  "socket_join sock r = sock\<lparr>rooms := List.insert r (rooms sock)\<rparr>"

section \<open>The grid game\<close>

text \<open>The two marks, the strings \<open>"X"\<close> and \<open>"O"\<close>.\<close>

datatype mark = MarkX | MarkO

text \<open>
  A board element is \<open>null\<close>, a mark, or \<open>undefined\<close> (what reading past the end of the
  array gives, and what the holes of an extended array hold).
\<close>

datatype cell = Null | Mark mark | Undefined

type_synonym board = "cell list"

text \<open>
  The \<open>index\<close> of a move is an arbitrary JSON value. \<open>board[index]\<close> depends on it only
  through its property key, the string it converts to (\<open>3\<close>, \<open>"3"\<close> and \<open>[3]\<close> all give
  \<open>''3''\<close>), so the model takes the key, \<open>None\<close> when the field is missing. A key is an
  array index when it is the canonical decimal numeral of a number below \<open>2^32 - 1\<close>.
\<close>

definition is_digit :: "char \<Rightarrow> bool" where
  "is_digit c = (48 \<le> (of_char c :: nat) \<and> (of_char c :: nat) \<le> 57)"

fun dec_value :: "nat \<Rightarrow> string \<Rightarrow> nat" where
  "dec_value acc [] = acc"
| "dec_value acc (c # cs) = dec_value (10 * acc + (of_char c - 48)) cs"

definition array_index :: "string \<Rightarrow> nat option" where
  "array_index k =
     (if k = [] \<or> \<not> list_all is_digit k then None
      else if hd k = CHR ''0'' \<and> length k > 1 then None
      else if dec_value 0 k < 4294967295 then Some (dec_value 0 k) else None)"

definition elem :: "board \<Rightarrow> nat \<Rightarrow> cell" where
  "elem b i = (if i < length b then b ! i else Undefined)"

text \<open>
  \<open>board[key]\<close>: \<open>Some c\<close> is the element the key addresses. \<open>None\<close> is a key that is no
  array index: the value read is then \<open>undefined\<close> or a member inherited from the array
  prototype (\<open>length\<close>, the methods), never \<open>null\<close>.
\<close>

definition board_get :: "board \<Rightarrow> string \<Rightarrow> cell option" where
  "board_get b k = (case array_index k of None \<Rightarrow> None | Some i \<Rightarrow> Some (elem b i))"

text \<open>
  \<open>board[key] = v\<close>: an index inside the array overwrites the element, an index past the
  end extends the array over holes, and any other key sets a named property and leaves
  the elements alone.
\<close>

definition board_set :: "board \<Rightarrow> string \<Rightarrow> cell \<Rightarrow> board" where
  "board_set b k v =
     (case array_index k of
        None \<Rightarrow> b
      | Some i \<Rightarrow> if i < length b then b[i := v]
                  else b @ replicate (i - length b) Undefined @ [v])"

definition cell_truthy :: "cell \<Rightarrow> bool" where
  "cell_truthy c = (case c of Mark m \<Rightarrow> True | _ \<Rightarrow> False)"

text \<open>
  \<open>checkWinner\<close> returns the content of the first complete line, and after the loop the
  object literal \<open>{ valid: true, check: false, checkmate: false, stalemate: false }\<close>.
\<close>

datatype check_result = Winner cell | ResultObject

definition winPatterns :: "(nat \<times> nat \<times> nat) list" where
  "winPatterns =
     [(0, 1, 2), (3, 4, 5), (6, 7, 8), (0, 3, 6), (1, 4, 7), (2, 5, 8), (0, 4, 8), (2, 4, 6)]"

fun checkWinner_loop :: "board \<Rightarrow> (nat \<times> nat \<times> nat) list \<Rightarrow> check_result" where
  "checkWinner_loop brd [] = ResultObject"
| "checkWinner_loop brd ((a, b, c) # ps) =
     (if cell_truthy (elem brd a) \<and> elem brd a = elem brd b \<and> elem brd a = elem brd c
      then Winner (elem brd a)
      else checkWinner_loop brd ps)"

definition checkWinner :: "board \<Rightarrow> check_result" where
  "checkWinner brd = checkWinner_loop brd winPatterns"

text \<open>Truthiness of what \<open>checkWinner\<close> returned: an object is truthy.\<close>

definition result_truthy :: "check_result \<Rightarrow> bool" where
  "result_truthy r = (case r of Winner c \<Rightarrow> cell_truthy c | ResultObject \<Rightarrow> True)"

record game =
  board :: board
  currentPlayer :: mark
  players :: "userid list"
  playerNames :: "(userid \<times> string) list"
  gameStarted :: bool
  gameOver :: bool

type_synonym games = "(roomid \<times> game) list"

text \<open>The colours of the chess rooms, and the \<open>winner\<close> of one: a colour or \<open>"draw"\<close>.\<close>

datatype colour = White | Black

datatype chess_winner = WinnerColour colour | Draw

section \<open>Events sent to clients\<close>

text \<open>
  The messages of the \<open>tictactoe-error\<close> and \<open>chess-error\<close> events. Those built from a
  template carry the values the template shows.
\<close>

datatype message =
    InvalidJoinData | RoomIsFull | InvalidMoveData | GameNotFound | GameNotStarted
  | GameIsOver | CellOccupied | NotAPlayer | NotYourTurn
  | InvalidUserData | RoomNotFound | PlayerNotFound
  | NotYourTurnChess colour colour
  | NoPieceFound string
  | WrongPiece colour colour
  | InvalidMove string string "string list"
  | MoveValidationError string
  | RoomDoesNotExist | NotInRoom | InvalidMessage

text \<open>The \<open>winner\<close> field of a grid state broadcast: \<open>winner || (isDraw ? "draw" : null)\<close>.\<close>

datatype winner_field = WinnerValue check_result | WinnerDraw | WinnerNull

record ttt_state =
  st_board :: board
  st_currentPlayer :: mark
  st_players :: "userid list"
  st_playerNames :: "(userid \<times> string) list"
  st_gameStarted :: bool
  st_gameOver :: bool
  st_winner :: winner_field

record last_move =
  lm_from :: string
  lm_to :: string
  lm_piece :: string
  lm_player :: colour
  lm_san :: string

record chess_state =
  cs_roomId :: roomid
  cs_fen :: string
  cs_currentPlayer :: colour
  cs_players :: "userid list"
  cs_playerNames :: "(userid \<times> string) list"
  cs_playerColors :: "(userid \<times> colour) list"
  cs_gameStarted :: bool
  cs_gameOver :: bool
  cs_winner :: "chess_winner option"
  cs_check :: bool
  cs_checkmate :: bool
  cs_stalemate :: bool
  cs_lastMove :: "last_move option"
  cs_waitingForPlayer :: bool

datatype event =
    TictactoeError message
  | TictactoeJoined roomid nat bool
  | TictactoeWaiting roomid nat
  | TictactoeState ttt_state
  | PlayerDisconnected userid nat
  | ChessError message
  | ChessRoomCreated roomid colour string
  | ChessState chess_state
  | ChessGameStarted roomid "userid list" "(userid \<times> string) list" "(userid \<times> colour) list"
  | ChessMoveConfirmed string string string string string
  | ChessChatReceived "string option" string string
  | ChessPlayerDisconnected userid nat

type_synonym out = "(target \<times> event) list"

section \<open>Grid handlers\<close>

definition state_of :: "game \<Rightarrow> winner_field \<Rightarrow> ttt_state" where
  "state_of g w =
     \<lparr>st_board = board g, st_currentPlayer = currentPlayer g, st_players = players g,
      st_playerNames = playerNames g, st_gameStarted = gameStarted g,
      st_gameOver = gameOver g, st_winner = w\<rparr>"

definition new_game :: game where
  "new_game =
     \<lparr>board = replicate 9 Null, currentPlayer = MarkX, players = [], playerNames = [],
      gameStarted = False, gameOver = False\<rparr>"

text \<open>The handler of \<open>tictactoe-join\<close>.\<close>

definition tictactoe_join ::
  "socket \<Rightarrow> string option \<Rightarrow> string option \<Rightarrow> games \<Rightarrow> socket \<times> games \<times> out" where
  "tictactoe_join sock roomId userName gs =
     (if \<not> truthy roomId \<or> \<not> truthy userName \<or> \<not> truthy (userId sock)
      then (sock, gs, [(ToSender, TictactoeError InvalidJoinData)])
      else
        let r = the roomId; u = the (userId sock); n = the userName;
            sock' = socket_join sock r;
            gs1 = (if map_of gs r = None then AList.update r new_game gs else gs);
            g = the (map_of gs1 r)
        in if u \<notin> set (players g) then
             (if length (players g) < 2 then
                let g1 = g\<lparr>players := players g @ [u],
                           playerNames := AList.update u n (playerNames g)\<rparr>
                in if length (players g1) = 2 then
                     let g2 = g1\<lparr>gameStarted := True\<rparr>
                     in (sock', AList.update r g2 gs1,
                         [(ToRoom r, TictactoeJoined r (length (players g2)) True),
                          (ToRoom r, TictactoeState (state_of g2 WinnerNull))])
                   else
                     (sock', AList.update r g1 gs1,
                      [(ToSender, TictactoeWaiting r (length (players g1))),
                       (ToRoom r, TictactoeState (state_of g1 WinnerNull))])
              else (sock', gs1, [(ToSender, TictactoeError RoomIsFull)]))
           else (sock', gs1, [(ToRoom r, TictactoeState (state_of g WinnerNull))]))"

text \<open>
  The handler of \<open>tictactoe-move\<close>. The checks come in the source's order; the write, the
  evaluation of the board and the broadcast follow.
\<close>

definition other_mark :: "mark \<Rightarrow> mark" where
  "other_mark m = (if m = MarkX then MarkO else MarkX)"

definition apply_move :: "game \<Rightarrow> string \<Rightarrow> game \<times> winner_field" where
  "apply_move g k =
     (let g1 = g\<lparr>board := board_set (board g) k (Mark (currentPlayer g))\<rparr>;
          winner = checkWinner (board g1);
          isDraw = (\<not> result_truthy winner \<and> list_all (\<lambda>c. c \<noteq> Null) (board g1));
          g2 = g1\<lparr>gameOver := (result_truthy winner \<or> isDraw)\<rparr>;
          g3 = (if \<not> gameOver g2 then g2\<lparr>currentPlayer := other_mark (currentPlayer g2)\<rparr>
                else g2)
      in (g3, if result_truthy winner then WinnerValue winner
              else if isDraw then WinnerDraw else WinnerNull))"

definition tictactoe_move ::
  "socket \<Rightarrow> string option \<Rightarrow> string option \<Rightarrow> games \<Rightarrow> games \<times> out" where
  "tictactoe_move sock roomId index gs =
     (if \<not> truthy roomId \<or> index = None
      then (gs, [(ToSender, TictactoeError InvalidMoveData)])
      else case map_get gs roomId of
        None \<Rightarrow> (gs, [(ToSender, TictactoeError GameNotFound)])
      | Some g \<Rightarrow>
          if \<not> gameStarted g then (gs, [(ToSender, TictactoeError GameNotStarted)])
          else if gameOver g then (gs, [(ToSender, TictactoeError GameIsOver)])
          else if board_get (board g) (the index) \<noteq> Some Null
          then (gs, [(ToSender, TictactoeError CellOccupied)])
          else case indexOf (players g) (userId sock) of
            None \<Rightarrow> (gs, [(ToSender, TictactoeError NotAPlayer)])
          | Some playerIndex \<Rightarrow>
              if currentPlayer g \<noteq> (if playerIndex = 0 then MarkX else MarkO)
              then (gs, [(ToSender, TictactoeError NotYourTurn)])
              else
                let (g', w) = apply_move g (the index)
                in (AList.update (the roomId) g' gs,
                    [(ToRoom (the roomId), TictactoeState (state_of g' w))]))"

text \<open>The handler of \<open>tictactoe-reset\<close>.\<close>

definition tictactoe_reset :: "string option \<Rightarrow> games \<Rightarrow> games \<times> out" where
  "tictactoe_reset roomId gs =
     (case map_get gs roomId of
        None \<Rightarrow> (gs, [])
      | Some g \<Rightarrow>
          let g' = g\<lparr>board := replicate 9 Null, currentPlayer := MarkX, gameOver := False\<rparr>
          in (AList.update (the roomId) g' gs,
              [(ToRoom (the roomId), TictactoeState (state_of g' WinnerNull))]))"

text \<open>
  The grid sweep of the \<open>disconnect\<close> handler, one room at a time in the order of the
  collection. The broadcast state takes its two flags from literals, not from the room.
\<close>

definition disconnect_room :: "userid option \<Rightarrow> roomid \<Rightarrow> game \<Rightarrow> game option \<times> out" where
  "disconnect_room u r g =
     (case indexOf (players g) u of
        None \<Rightarrow> (Some g, [])
      | Some playerIndex \<Rightarrow>
          let g' = g\<lparr>players := splice1 (players g) playerIndex,
                     playerNames := AList.delete (the u) (playerNames g)\<rparr>
          in if length (players g') = 0 then (None, [])
             else (Some g',
                   [(ToRoom r, PlayerDisconnected (the u) (length (players g'))),
                    (ToRoom r, TictactoeState
                       ((state_of g' WinnerNull)\<lparr>st_gameStarted := False, st_gameOver := True\<rparr>))]))"

fun disconnect_games :: "userid option \<Rightarrow> games \<Rightarrow> games \<times> out" where
  "disconnect_games u [] = ([], [])"
| "disconnect_games u ((r, g) # rest) =
     (let (g', out) = disconnect_room u r g;
          (rest', out') = disconnect_games u rest
      in (case g' of None \<Rightarrow> rest' | Some h \<Rightarrow> (r, h) # rest', out @ out'))"

section \<open>Chess rooms\<close>

text \<open>
  The rules engine is the library \<open>chess.js\<close>, which is not part of the repository. The
  handlers are defined over any engine: a position type \<open>'p\<close> and the operations the code
  calls on it. \<open>chess_move\<close> stands for \<open>chess.move({from, to, promotion})\<close>, which returns
  the executed move, returns a falsy value, or throws, depending on the library version;
  the code handles all three. A rejected or throwing call is taken to leave the position
  as it was, which is the library's behaviour.
\<close>

datatype piece_colour = PieceW | PieceB

datatype piece = Piece (piece_color: piece_colour) (piece_type: string)

datatype executed_move = ExecutedMove (move_piece: string) (move_san: string)

datatype 'p move_outcome = Moved 'p executed_move | Rejected | Threw string

record 'p engine =
  chess_new :: 'p
  chess_fen :: "'p \<Rightarrow> string"
  chess_get :: "'p \<Rightarrow> string \<Rightarrow> piece option"
  chess_moves :: "'p \<Rightarrow> string \<Rightarrow> string list"
  chess_move :: "'p \<Rightarrow> string \<Rightarrow> string \<Rightarrow> string option \<Rightarrow> 'p move_outcome"
  chess_inCheck :: "'p \<Rightarrow> bool"
  chess_isCheckmate :: "'p \<Rightarrow> bool"
  chess_isStalemate :: "'p \<Rightarrow> bool"

record move_entry =
  me_from :: string
  me_to :: string
  me_piece :: string
  me_player :: colour
  me_timestamp :: nat
  me_san :: string

record 'p chess_game =
  chess :: 'p
  currentPlayer :: colour
  players :: "userid list"
  playerNames :: "(userid \<times> string) list"
  playerColors :: "(userid \<times> colour) list"
  gameStarted :: bool
  gameOver :: bool
  winner :: "chess_winner option"
  moves :: "move_entry list"
  check :: bool
  checkmate :: bool
  stalemate :: bool

type_synonym 'p chessGames = "(roomid \<times> 'p chess_game) list"


text \<open>
  \<open>playerColors[userId]\<close>: the identity of the connection is converted to a property key,
  so a connection without identity reads the key \<open>undefined\<close>. The dictionaries
  \<open>playerNames\<close> and \<open>playerColors\<close> are association lists; identities are taken to be
  ordinary keys (not names of members of the object prototype).
\<close>

definition property_key :: "string option \<Rightarrow> string" where
  "property_key u = (case u of None \<Rightarrow> ''undefined'' | Some v \<Rightarrow> v)"

section \<open>Room identifiers\<close>

text \<open>
  \<open>generateRoomId\<close> is \<open>Math.random().toString(36).substring(2, 8).toUpperCase()\<close>. The
  random number is a floating point number; the model takes its rendering in base 36,
  the string \<open>Math.random().toString(36)\<close>, as the input. Such a rendering is \<open>0\<close> for the
  number zero and otherwise \<open>0.\<close> followed by digits out of \<open>0-9a-z\<close>, as many as the
  number needs: one half is \<open>0.i\<close>.
\<close>

definition is_lower :: "char \<Rightarrow> bool" where
  "is_lower c = (97 \<le> (of_char c :: nat) \<and> (of_char c :: nat) \<le> 122)"

definition is_upper :: "char \<Rightarrow> bool" where
  "is_upper c = (65 \<le> (of_char c :: nat) \<and> (of_char c :: nat) \<le> 90)"

text \<open>\<open>toUpperCase\<close> on the characters of a rendering: ASCII letters are raised.\<close>

definition toUpperCase_char :: "char \<Rightarrow> char" where
  "toUpperCase_char c = (if is_lower c then char_of ((of_char c :: nat) - 32) else c)"

definition substring :: "nat \<Rightarrow> nat \<Rightarrow> string \<Rightarrow> string" where
  "substring i j s = take (j - i) (drop i s)"

definition generateRoomId :: "string \<Rightarrow> roomid" where
  "generateRoomId rendering = map toUpperCase_char (substring 2 8 rendering)"

definition base36_rendering :: "string \<Rightarrow> bool" where
  "base36_rendering s =
     (s = ''0'' \<or>
      (take 2 s = ''0.'' \<and> drop 2 s \<noteq> [] \<and> list_all (\<lambda>c. is_digit c \<or> is_lower c) (drop 2 s)))"

section \<open>The message sanitizer\<close>

text \<open>
  A chat text is a string of code units or is missing. \<open>/<[^>]+>/g\<close> matches, from left to
  right, a \<open><\<close>, then as many units other than \<open>>\<close> as there are (at least one), then a
  \<open>>\<close>; after a match the search goes on behind it, and where no match starts the unit is
  kept.
\<close>

definition not_gt :: "char \<Rightarrow> bool" where
  "not_gt c = (c \<noteq> CHR ''>'')"

definition tag_starts :: "string \<Rightarrow> bool" where
  "tag_starts cs = (takeWhile not_gt cs \<noteq> [] \<and> dropWhile not_gt cs \<noteq> [])"

function strip_tags :: "string \<Rightarrow> string" where
  "strip_tags [] = []"
| "strip_tags (c # cs) =
     (if c = CHR ''<'' \<and> tag_starts cs then strip_tags (tl (dropWhile not_gt cs))
      else c # strip_tags cs)"
  by pat_completeness auto
termination
proof (relation "measure length")
  show "wf (measure length)" by simp
next
  fix c :: char and cs :: string
  have "length (dropWhile not_gt cs) \<le> length cs"
    by (rule length_dropWhile_le)
  then show "(tl (dropWhile not_gt cs), c # cs) \<in> measure length"
    by simp
next
  fix c :: char and cs :: string
  show "(cs, c # cs) \<in> measure length" by simp
qed

text \<open>
  \<open>replace(/pat/g, rep)\<close> for a literal pattern \<open>p # ps\<close>: one pass from left to right,
  the text of a replacement is not searched again.
\<close>

function replace_all :: "char \<Rightarrow> string \<Rightarrow> string \<Rightarrow> string \<Rightarrow> string" where
  "replace_all p ps rep [] = []"
| "replace_all p ps rep (c # cs) =
     (if c = p \<and> take (length ps) cs = ps
      then rep @ replace_all p ps rep (drop (length ps) cs)
      else c # replace_all p ps rep cs)"
  by pat_completeness auto
termination
  by (relation "measure (\<lambda>(p, ps, rep, s). length s)") auto

definition decode_entities :: "string \<Rightarrow> string" where
  "decode_entities s =
     replace_all (CHR ''&'') ''#39;'' [CHR 0x27]
       (replace_all (CHR ''&'') ''quot;'' [CHR 0x22]
          (replace_all (CHR ''&'') ''gt;'' ''>''
             (replace_all (CHR ''&'') ''lt;'' ''<''
                (replace_all (CHR ''&'') ''amp;'' ''&'' s))))"

text \<open>
  \<open>trim\<close> removes white space and line terminators at both ends. A \<open>char\<close> stands for a
  code unit below 256; among those the tab, the line feed, the vertical tab, the form
  feed, the carriage return, the space and the no-break space are removed.
\<close>

definition is_space :: "char \<Rightarrow> bool" where
  "is_space c = ((of_char c :: nat) \<in> {9, 10, 11, 12, 13, 32, 160})"

definition trim :: "string \<Rightarrow> string" where
  "trim s = rev (dropWhile is_space (rev (dropWhile is_space s)))"

definition sanitizeMessage :: "string option \<Rightarrow> string" where
  "sanitizeMessage message =
     (if \<not> truthy message then []
      else trim (take 200 (decode_entities (strip_tags (the message)))))"

section \<open>Chess handlers\<close>

definition createChessGame :: "'p engine \<Rightarrow> 'p chess_game" where
  "createChessGame eng =
     \<lparr>chess = chess_new eng, currentPlayer = White, players = [], playerNames = [],
      playerColors = [], gameStarted = False, gameOver = False, winner = None, moves = [],
      check = False, checkmate = False, stalemate = False\<rparr>"

text \<open>
  The \<open>chess-state\<close> payload. The room fields are read from the room; \<open>check\<close>,
  \<open>checkmate\<close> and \<open>stalemate\<close> are asked of the engine at the time of the broadcast.
\<close>

definition chess_state_of ::
  "'p engine \<Rightarrow> roomid \<Rightarrow> 'p chess_game \<Rightarrow> last_move option \<Rightarrow> bool \<Rightarrow> chess_state" where
  "chess_state_of eng r g lm waiting =
     \<lparr>cs_roomId = r, cs_fen = chess_fen eng (chess g), cs_currentPlayer = currentPlayer g,
      cs_players = players g, cs_playerNames = playerNames g,
      cs_playerColors = playerColors g, cs_gameStarted = gameStarted g,
      cs_gameOver = gameOver g, cs_winner = winner g,
      cs_check = chess_inCheck eng (chess g), cs_checkmate = chess_isCheckmate eng (chess g),
      cs_stalemate = chess_isStalemate eng (chess g), cs_lastMove = lm,
      cs_waitingForPlayer = waiting\<rparr>"

text \<open>The handler of \<open>chess-create-room\<close>; \<open>rendering\<close> is the random source's output.\<close>

definition chess_create_room ::
  "'p engine \<Rightarrow> string \<Rightarrow> socket \<Rightarrow> string option \<Rightarrow> 'p chessGames
     \<Rightarrow> socket \<times> 'p chessGames \<times> out" where
  "chess_create_room eng rendering sock userName cgs =
     (if \<not> truthy userName \<or> \<not> truthy (userId sock)
      then (sock, cgs, [(ToSender, ChessError InvalidUserData)])
      else
        let u = the (userId sock); n = the userName;
            roomId = generateRoomId rendering;
            g0 = createChessGame eng;
            g = g0\<lparr>players := players g0 @ [u],
                    playerNames := AList.update u n (playerNames g0),
                    playerColors := AList.update u White (playerColors g0)\<rparr>
        in (socket_join sock roomId, AList.update roomId g cgs,
            [(ToSender, ChessRoomCreated roomId White n),
             (ToSender, ChessState (chess_state_of eng roomId g None True))]))"

text \<open>The handler of \<open>chess-join-room\<close>.\<close>

definition chess_join_room ::
  "'p engine \<Rightarrow> socket \<Rightarrow> string option \<Rightarrow> string option \<Rightarrow> 'p chessGames
     \<Rightarrow> socket \<times> 'p chessGames \<times> out" where
  "chess_join_room eng sock roomId userName cgs =
     (if \<not> truthy roomId \<or> \<not> truthy userName \<or> \<not> truthy (userId sock)
      then (sock, cgs, [(ToSender, ChessError InvalidJoinData)])
      else case map_get cgs roomId of
        None \<Rightarrow> (sock, cgs, [(ToSender, ChessError RoomNotFound)])
      | Some g \<Rightarrow>
          let r = the roomId; u = the (userId sock); n = the userName;
              sock' = socket_join sock r
          in if u \<in> set (players g)
             then (sock', cgs,
                   [(ToRoom r, ChessState (chess_state_of eng r g None (length (players g) < 2)))])
             else if length (players g) \<ge> 2
             then (sock', cgs, [(ToSender, ChessError RoomIsFull)])
             else
               let g' = g\<lparr>players := players g @ [u],
                          playerNames := AList.update u n (playerNames g),
                          playerColors := AList.update u Black (playerColors g),
                          gameStarted := True\<rparr>
               in (sock', AList.update r g' cgs,
                   [(ToRoom r, ChessGameStarted r (players g') (playerNames g') (playerColors g')),
                    (ToRoom r, ChessState (chess_state_of eng r g' None False))]))"

text \<open>
  \<open>validateAndExecuteMove\<close>. The result object is \<open>Invalid\<close> with the error text or
  \<open>Valid\<close> with the three engine verdicts and the executed move; the room comes back with
  the position the engine produced.
\<close>

datatype move_result = Invalid message | Valid bool bool bool executed_move

definition validateAndExecuteMove ::
  "'p engine \<Rightarrow> 'p chess_game \<Rightarrow> string \<Rightarrow> string \<Rightarrow> string option
     \<Rightarrow> 'p chess_game \<times> move_result" where
  "validateAndExecuteMove eng g from to promotion =
     (case chess_get eng (chess g) from of
        None \<Rightarrow> (g, Invalid (NoPieceFound from))
      | Some pieceAtFrom \<Rightarrow>
          let pieceColor = (if piece_color pieceAtFrom = PieceW then White else Black)
          in if pieceColor \<noteq> currentPlayer g
             then (g, Invalid (WrongPiece (currentPlayer g) pieceColor))
             else
               let possibleMoves = chess_moves eng (chess g) from
               in case chess_move eng (chess g) from to
                         (if truthy promotion then promotion else None) of
                    Threw msg \<Rightarrow> (g, Invalid (MoveValidationError msg))
                  | Rejected \<Rightarrow> (g, Invalid (InvalidMove from to possibleMoves))
                  | Moved p mv \<Rightarrow>
                      (g\<lparr>chess := p\<rparr>,
                       Valid (chess_inCheck eng p) (chess_isCheckmate eng p)
                         (chess_isStalemate eng p) mv))"

text \<open>
  The handler of \<open>chess-move\<close>; \<open>now\<close> is the clock reading that stamps the log entry.
  The deferred end-of-game notice of the handler runs on a timer five seconds later and
  is not part of this step.
\<close>

definition record_move ::
  "'p chess_game \<Rightarrow> string \<Rightarrow> string \<Rightarrow> colour \<Rightarrow> nat \<Rightarrow> bool \<Rightarrow> bool \<Rightarrow> bool
     \<Rightarrow> executed_move \<Rightarrow> 'p chess_game" where
  "record_move g from to playerColor now chk mate stale mv =
     (let g1 = g\<lparr>moves := moves g @
                   [\<lparr>me_from = from, me_to = to, me_piece = move_piece mv,
                     me_player = playerColor, me_timestamp = now, me_san = move_san mv\<rparr>]\<rparr>;
          g2 = g1\<lparr>currentPlayer := (if currentPlayer g1 = White then Black else White)\<rparr>;
          g3 = g2\<lparr>check := chk, checkmate := mate, stalemate := stale,
                   gameOver := (mate \<or> stale)\<rparr>
      in if mate then g3\<lparr>winner := Some (WinnerColour playerColor)\<rparr>
         else if stale then g3\<lparr>winner := Some Draw\<rparr>
         else g3)"

definition chess_move_handler ::
  "'p engine \<Rightarrow> nat \<Rightarrow> socket \<Rightarrow> string option \<Rightarrow> string option \<Rightarrow> string option
     \<Rightarrow> string option \<Rightarrow> 'p chessGames \<Rightarrow> 'p chessGames \<times> out" where
  "chess_move_handler eng now sock roomId from to promotion cgs =
     (if \<not> truthy roomId \<or> \<not> truthy from \<or> \<not> truthy to
      then (cgs, [(ToSender, ChessError InvalidMoveData)])
      else case map_get cgs roomId of
        None \<Rightarrow> (cgs, [(ToSender, ChessError GameNotFound)])
      | Some g \<Rightarrow>
          if \<not> gameStarted g then (cgs, [(ToSender, ChessError GameNotStarted)])
          else if gameOver g then (cgs, [(ToSender, ChessError GameIsOver)])
          else case map_of (playerColors g) (property_key (userId sock)) of
            None \<Rightarrow> (cgs, [(ToSender, ChessError PlayerNotFound)])
          | Some playerColor \<Rightarrow>
              if playerColor \<noteq> currentPlayer g
              then (cgs, [(ToSender, ChessError (NotYourTurnChess (currentPlayer g) playerColor))])
              else case validateAndExecuteMove eng g (the from) (the to) promotion of
                (g1, Invalid err) \<Rightarrow> (AList.update (the roomId) g1 cgs, [(ToSender, ChessError err)])
              | (g1, Valid chk mate stale mv) \<Rightarrow>
                  let r = the roomId;
                      g' = record_move g1 (the from) (the to) playerColor now chk mate stale mv;
                      lm = \<lparr>lm_from = the from, lm_to = the to, lm_piece = move_piece mv,
                            lm_player = playerColor, lm_san = move_san mv\<rparr>
                  in (AList.update r g' cgs,
                      [(ToRoom r, ChessState (chess_state_of eng r g' (Some lm) False)),
                       (ToSender, ChessMoveConfirmed (the from) (the to) (move_piece mv)
                                    (chess_fen eng (chess g')) (move_san mv))]))"

text \<open>The handler of \<open>chess-reset\<close>.\<close>

definition chess_reset :: "'p engine \<Rightarrow> string option \<Rightarrow> 'p chessGames \<Rightarrow> 'p chessGames \<times> out" where
  "chess_reset eng roomId cgs =
     (case map_get cgs roomId of
        None \<Rightarrow> (cgs, [])
      | Some g \<Rightarrow>
          let r = the roomId;
              g' = g\<lparr>chess := chess_new eng, currentPlayer := White, gameOver := False,
                     winner := None, moves := [], check := False, checkmate := False,
                     stalemate := False\<rparr>
          in (AList.update r g' cgs,
              [(ToRoom r, ChessState (chess_state_of eng r g' None (length (players g') < 2)))]))"

text \<open>
  The chess sweep of the \<open>disconnect\<close> handler. The room keeps \<open>gameOver\<close> and \<open>winner\<close>;
  the broadcast shows them as \<open>false\<close> and \<open>null\<close> from literals.
\<close>

definition disconnect_chess_room ::
  "'p engine \<Rightarrow> userid option \<Rightarrow> roomid \<Rightarrow> 'p chess_game \<Rightarrow> 'p chess_game option \<times> out" where
  "disconnect_chess_room eng u r g =
     (case indexOf (players g) u of
        None \<Rightarrow> (Some g, [])
      | Some playerIndex \<Rightarrow>
          let g1 = g\<lparr>players := splice1 (players g) playerIndex,
                     playerNames := AList.delete (the u) (playerNames g),
                     playerColors := AList.delete (the u) (playerColors g)\<rparr>
          in if length (players g1) = 0 then (None, [])
             else
               let g2 = g1\<lparr>gameStarted := False\<rparr>
               in (Some g2,
                   [(ToRoom r, ChessPlayerDisconnected (the u) (length (players g1))),
                    (ToRoom r, ChessState
                       ((chess_state_of eng r g2 None True)
                          \<lparr>cs_gameStarted := False, cs_gameOver := False, cs_winner := None\<rparr>))]))"

fun disconnect_chessGames ::
  "'p engine \<Rightarrow> userid option \<Rightarrow> 'p chessGames \<Rightarrow> 'p chessGames \<times> out" where
  "disconnect_chessGames eng u [] = ([], [])"
| "disconnect_chessGames eng u ((r, g) # rest) =
     (let (g', out) = disconnect_chess_room eng u r g;
          (rest', out') = disconnect_chessGames eng u rest
      in (case g' of None \<Rightarrow> rest' | Some h \<Rightarrow> (r, h) # rest', out @ out'))"

text \<open>The whole \<open>disconnect\<close> handler: the grid rooms first, then the chess rooms.\<close>

definition disconnect ::
  "'p engine \<Rightarrow> socket \<Rightarrow> games \<times> 'p chessGames \<Rightarrow> (games \<times> 'p chessGames) \<times> out" where
  "disconnect eng sock st =
     (if truthy (userId sock)
      then
        let (gs', out1) = disconnect_games (userId sock) (fst st);
            (cgs', out2) = disconnect_chessGames eng (userId sock) (snd st)
        in ((gs', cgs'), out1 @ out2)
      else (st, []))"

text \<open>
  The handler of \<open>chess-chat-message\<close>; \<open>timestamp\<close> is the clock's ISO rendering. The
  display name is relayed as it came.
\<close>

definition chess_chat_message ::
  "string \<Rightarrow> socket \<Rightarrow> string option \<Rightarrow> string option \<Rightarrow> string option \<Rightarrow> 'p chessGames \<Rightarrow> out" where
  "chess_chat_message timestamp sock roomId userName message cgs =
     (if map_get cgs roomId = None then [(ToSender, ChessError RoomDoesNotExist)]
      else if the roomId \<notin> set (rooms sock) then [(ToSender, ChessError NotInRoom)]
      else if \<not> truthy (Some (sanitizeMessage message))
      then [(ToSender, ChessError InvalidMessage)]
      else [(ToRoom (the roomId),
             ChessChatReceived userName (sanitizeMessage message) timestamp)])"

section \<open>The server as a whole\<close>

text \<open>
  One inbound event, with what the handler takes from the random source or the clock.
  \<open>handle\<close> dispatches it to its handler on the two room collections.
\<close>

datatype action =
    TictactoeJoin "string option" "string option"
  | TictactoeMove "string option" "string option"
  | TictactoeReset "string option"
  | ChessCreateRoom string "string option"
  | ChessJoinRoom "string option" "string option"
  | ChessMove nat "string option" "string option" "string option" "string option"
  | ChessReset "string option"
  | ChessChatMessage string "string option" "string option" "string option"
  | Disconnect

type_synonym 'p server = "games \<times> 'p chessGames"

fun handle :: "'p engine \<Rightarrow> socket \<Rightarrow> action \<Rightarrow> 'p server \<Rightarrow> socket \<times> 'p server \<times> out" where
  "handle eng sock (TictactoeJoin roomId userName) (gs, cgs) =
     (let (sock', gs', out) = tictactoe_join sock roomId userName gs in (sock', (gs', cgs), out))"
| "handle eng sock (TictactoeMove roomId index) (gs, cgs) =
     (let (gs', out) = tictactoe_move sock roomId index gs in (sock, (gs', cgs), out))"
| "handle eng sock (TictactoeReset roomId) (gs, cgs) =
     (let (gs', out) = tictactoe_reset roomId gs in (sock, (gs', cgs), out))"
| "handle eng sock (ChessCreateRoom rendering userName) (gs, cgs) =
     (let (sock', cgs', out) = chess_create_room eng rendering sock userName cgs
      in (sock', (gs, cgs'), out))"
| "handle eng sock (ChessJoinRoom roomId userName) (gs, cgs) =
     (let (sock', cgs', out) = chess_join_room eng sock roomId userName cgs
      in (sock', (gs, cgs'), out))"
| "handle eng sock (ChessMove now roomId from to promotion) (gs, cgs) =
     (let (cgs', out) = chess_move_handler eng now sock roomId from to promotion cgs
      in (sock, (gs, cgs'), out))"
| "handle eng sock (ChessReset roomId) (gs, cgs) =
     (let (cgs', out) = chess_reset eng roomId cgs in (sock, (gs, cgs'), out))"
| "handle eng sock (ChessChatMessage timestamp roomId userName message) (gs, cgs) =
     (sock, (gs, cgs), chess_chat_message timestamp sock roomId userName message cgs)"
| "handle eng sock Disconnect (gs, cgs) =
     (let (st', out) = disconnect eng sock (gs, cgs) in (sock, st', out))"

text \<open>
  A run of the server from a state: each event arrives on some connection, given with
  it. Every connection state is allowed, which covers all the ways connections can have
  joined transport rooms before.
\<close>

fun run :: "'p engine \<Rightarrow> (socket \<times> action) list \<Rightarrow> 'p server \<Rightarrow> 'p server" where
  "run eng [] st = st"
| "run eng ((sock, a) # rest) st = run eng rest (fst (snd (handle eng sock a st)))"

definition is_error :: "event \<Rightarrow> bool" where
  "is_error e = (case e of TictactoeError m \<Rightarrow> True | ChessError m \<Rightarrow> True | _ \<Rightarrow> False)"

section \<open>Reference notions and sample data\<close>

text \<open>
  The terminal condition of the grid game in the words of the specification: a line is
  one of the eight patterns whose three cells hold the same mark, and the board is full
  when no cell is empty.
\<close>

definition line_complete :: "board \<Rightarrow> bool" where
  "line_complete brd =
     list_ex (\<lambda>(a, b, c). case elem brd a of
                Mark m \<Rightarrow> elem brd b = Mark m \<and> elem brd c = Mark m
              | _ \<Rightarrow> False) winPatterns"

definition all_occupied :: "board \<Rightarrow> bool" where
  "all_occupied brd = list_all (\<lambda>c. c \<noteq> Null) brd"

text \<open>
  A markup tag, as the sanitizer's pattern reads it: a \<open><\<close>, a body of at least one unit
  without \<open>>\<close>, and a \<open>>\<close>. A text contains a tag when some part of it is one.
\<close>

definition is_tag :: "string \<Rightarrow> bool" where
  "is_tag t = (\<exists>body. t = CHR ''<'' # body @ [CHR ''>''] \<and> body \<noteq> [] \<and> CHR ''>'' \<notin> set body)"

definition contains_tag :: "string \<Rightarrow> bool" where
  "contains_tag s = (\<exists>pre t post. s = pre @ t @ post \<and> is_tag t)"

text \<open>The same, as a left-to-right search for a place where a tag starts.\<close>

fun has_tag :: "string \<Rightarrow> bool" where
  "has_tag [] = False"
| "has_tag (c # cs) = ((c = CHR ''<'' \<and> tag_starts cs) \<or> has_tag cs)"

text \<open>
  A move index addresses a cell when its key is the numeral of one of \<open>0\<close> to \<open>8\<close>. A
  collection of grid rooms is well formed when no room identifier occurs twice, every
  board has nine cells and nobody is seated twice in a room; likewise for chess rooms.
\<close>

definition addresses_cell :: "string option \<Rightarrow> bool" where
  "addresses_cell index =
     (case index of
        None \<Rightarrow> False
      | Some k \<Rightarrow> (case array_index k of None \<Rightarrow> False | Some i \<Rightarrow> i < 9))"

definition room_ok :: "game \<Rightarrow> bool" where
  "room_ok g = (length (game.board g) = 9 \<and> distinct (game.players g))"

definition games_ok :: "games \<Rightarrow> bool" where
  "games_ok gs = (distinct (map fst gs) \<and> list_all (\<lambda>e. room_ok (snd e)) gs)"

definition chessGames_ok :: "'p chessGames \<Rightarrow> bool" where
  "chessGames_ok cgs = (distinct (map fst cgs) \<and> list_all (\<lambda>e. distinct (players (snd e))) cgs)"

text \<open>
  Three connections, and the grid room \<open>r\<close> after both have joined it on an empty server:
  two seated players, the game started, the board empty, \<open>X\<close> to move.
\<close>

definition ann :: socket where
  "ann = \<lparr>userId = Some ''ann'', rooms = []\<rparr>"

definition bob :: socket where
  "bob = \<lparr>userId = Some ''bob'', rooms = []\<rparr>"


definition started_room :: games where
  "started_room =
     fst (snd (tictactoe_join bob (Some ''r'') (Some ''Bob'')
       (fst (snd (tictactoe_join ann (Some ''r'') (Some ''Ann'') [])))))"

text \<open>
  A small stand-in for the rules engine, to run the chess handlers on concrete inputs: a
  position counts the moves made; a white pawn stands on \<open>e2\<close> and a black one on
  \<open>e7\<close>; the only move the engine accepts is \<open>e2\<close> to \<open>e4\<close>, and it throws on the
  target \<open>zz\<close>.
\<close>

definition stub_engine :: "nat engine" where
  "stub_engine =
     \<lparr>chess_new = 0,
      chess_fen = (\<lambda>p. if p = 0 then ''start'' else ''moved''),
      chess_get = (\<lambda>p sq. if sq = ''e2'' then Some (Piece PieceW ''p'')
                           else if sq = ''e7'' then Some (Piece PieceB ''p'') else None),
      chess_moves = (\<lambda>p sq. if sq = ''e2'' then [''e3'', ''e4''] else []),
      chess_move = (\<lambda>p from to promotion.
                      if from = ''e2'' \<and> to = ''e4'' then Moved (Suc p) (ExecutedMove ''p'' ''e4'')
                      else if to = ''zz'' then Threw ''Invalid square''
                      else Rejected),
      chess_inCheck = (\<lambda>p. False),
      chess_isCheckmate = (\<lambda>p. False),
      chess_isStalemate = (\<lambda>p. False)\<rparr>"

text \<open>
  The chess room that \<open>ann\<close> creates when the random source renders as
  \<open>0.4fzyo82mvyr\<close>, after \<open>bob\<close> has joined it.
\<close>

definition chess_room :: "nat chessGames" where
  "chess_room =
     fst (snd (chess_join_room stub_engine bob (Some ''4FZYO8'') (Some ''Bob'')
       (fst (snd (chess_create_room stub_engine ''0.4fzyo82mvyr'' ann (Some ''Ann'') [])))))"

section \<open>Evaluation lemmas\<close>

lemmas grid_defs = tictactoe_join_def tictactoe_move_def truthy_def socket_join_def new_game_def
  Let_def state_of_def map_get_def indexOf_def board_get_def array_index_def is_digit_def elem_def
  apply_move_def board_set_def checkWinner_def winPatterns_def cell_truthy_def result_truthy_def
  other_mark_def

lemma replicate_9: "replicate 9 x = [x, x, x, x, x, x, x, x, x]"
  by (simp add: eval_nat_numeral)

lemma started_room_eq:
  "started_room =
     [(''r'', \<lparr>board = [Null, Null, Null, Null, Null, Null, Null, Null, Null],
              currentPlayer = MarkX, players = [''ann'', ''bob''],
              playerNames = [(''ann'', ''Ann''), (''bob'', ''Bob'')], gameStarted = True,
              gameOver = False\<rparr>)]"
  by (simp add: started_room_def ann_def bob_def tictactoe_join_def truthy_def socket_join_def
      new_game_def Let_def replicate_9)

lemma generateRoomId_sample: "generateRoomId ''0.4fzyo82mvyr'' = ''4FZYO8''"
  by (simp add: generateRoomId_def substring_def toUpperCase_char_def is_lower_def char_of_def
      bit_0)

lemma chess_room_eq:
  "chess_room =
     [(''4FZYO8'',
       \<lparr>chess = 0, currentPlayer = White, players = [''ann'', ''bob''],
        playerNames = [(''ann'', ''Ann''), (''bob'', ''Bob'')],
        playerColors = [(''ann'', White), (''bob'', Black)], gameStarted = True,
        gameOver = False, winner = None, moves = [], check = False, checkmate = False,
        stalemate = False\<rparr>)]"
  by (simp add: chess_room_def chess_create_room_def chess_join_room_def createChessGame_def
      generateRoomId_sample ann_def bob_def truthy_def map_get_def socket_join_def Let_def
      stub_engine_def)

section \<open>The terminal condition of the grid game\<close>

text \<open>
  Whatever the board, \<open>checkWinner\<close> returns a truthy value: the content of a complete
  line is a mark, and with no line the result is an object. So every move that is
  carried out sets \<open>gameOver\<close>.
\<close>

lemma checkWinner_loop_truthy: "result_truthy (checkWinner_loop brd ps)"
  by (induction brd ps rule: checkWinner_loop.induct) (auto simp: result_truthy_def)

lemma checkWinner_truthy: "result_truthy (checkWinner brd)"
  by (simp add: checkWinner_def checkWinner_loop_truthy)

lemma apply_move_gameOver: "game.gameOver (fst (apply_move g k))"
  by (simp add: apply_move_def Let_def checkWinner_truthy)

text \<open>
  Claim C1. After a successful move \<open>gameOver\<close> should hold exactly when the board has a
  complete line or is full, and the broadcast winner should be the mark, \<open>draw\<close> or
  unset. On the started room, \<open>X\<close> playing cell 0 leaves a board with one mark on it, no
  line and eight empty cells; the code stores \<open>gameOver = true\<close> and broadcasts the
  object returned by \<open>checkWinner\<close> as the winner.
\<close>

theorem first_move_sets_gameOver:
  "tictactoe_move ann (Some ''r'') (Some ''0'') started_room =
     ([(''r'', \<lparr>board = [Mark MarkX, Null, Null, Null, Null, Null, Null, Null, Null],
               currentPlayer = MarkX, players = [''ann'', ''bob''],
               playerNames = [(''ann'', ''Ann''), (''bob'', ''Bob'')], gameStarted = True,
               gameOver = True\<rparr>)],
      [(ToRoom ''r'', TictactoeState
         \<lparr>st_board = [Mark MarkX, Null, Null, Null, Null, Null, Null, Null, Null],
          st_currentPlayer = MarkX, st_players = [''ann'', ''bob''],
          st_playerNames = [(''ann'', ''Ann''), (''bob'', ''Bob'')], st_gameStarted = True,
          st_gameOver = True, st_winner = WinnerValue ResultObject\<rparr>)])
   \<and> \<not> line_complete [Mark MarkX, Null, Null, Null, Null, Null, Null, Null, Null]
   \<and> \<not> all_occupied [Mark MarkX, Null, Null, Null, Null, Null, Null, Null, Null]"
  by (simp add: started_room_eq ann_def grid_defs line_complete_def all_occupied_def)

theorem first_move_sets_gameOver_witness:
  "map (game.gameOver \<circ> snd) (fst (tictactoe_move ann (Some ''r'') (Some ''0'') started_room))
     = [True]"
  using first_move_sets_gameOver by simp

text \<open>
  Claim C2. The player to move should alternate with every successful move until the
  game is over. On the started room, after \<open>X\<close> has played cell 0 the player to move is
  still \<open>X\<close>, and the move of \<open>O\<close> to the free cell 1 is refused because the game is over.
\<close>

theorem no_turn_for_second_player:
  "(let (gs1, out1) = tictactoe_move ann (Some ''r'') (Some ''0'') started_room;
        (gs2, out2) = tictactoe_move bob (Some ''r'') (Some ''1'') gs1
    in map (game.currentPlayer \<circ> snd) gs1 = [MarkX]
       \<and> out2 = [(ToSender, TictactoeError GameIsOver)] \<and> gs2 = gs1)"
  by (simp add: started_room_eq ann_def bob_def grid_defs)

theorem no_turn_for_second_player_witness:
  "map (game.currentPlayer \<circ> snd)
     (fst (tictactoe_move ann (Some ''r'') (Some ''0'') started_room)) = [MarkX]"
  using no_turn_for_second_player by (simp add: Let_def split: prod.splits)

section \<open>The disconnect sweeps\<close>

text \<open>
  \<open>indexOf\<close> finds a seated identity, and taking out the element at the position found
  removes its first occurrence. Each sweep treats every room by itself: what is stored
  under a room identifier afterwards, and what is sent, is what the step on that room
  gives.
\<close>

lemma indexOf_from_None: "indexOf_from ps u i = None \<longleftrightarrow> u \<notin> set ps"
  by (induction ps arbitrary: i) auto

lemma indexOf_from_Some:
  "indexOf_from ps u i = Some j \<Longrightarrow> i \<le> j \<and> splice1 ps (j - i) = remove1 u ps"
proof (induction ps arbitrary: i)
  case Nil
  then show ?case by simp
next
  case (Cons p ps)
  show ?case
  proof (cases "p = u")
    case True
    with Cons.prems show ?thesis by (simp add: splice1_def)
  next
    case False
    with Cons.prems have "indexOf_from ps u (Suc i) = Some j" by simp
    from Cons.IH [OF this] have le: "Suc i \<le> j" and sp: "splice1 ps (j - Suc i) = remove1 u ps"
      by simp_all
    from le have "j - i = Suc (j - Suc i)" by simp
    with sp False le show ?thesis by (simp add: splice1_def)
  qed
qed

lemma indexOf_Some_cases:
  "v \<in> set ps \<Longrightarrow> \<exists>j. indexOf ps (Some v) = Some j \<and> splice1 ps j = remove1 v ps"
proof -
  assume "v \<in> set ps"
  then obtain j where j: "indexOf_from ps v 0 = Some j"
    using indexOf_from_None [of ps v 0] by (cases "indexOf_from ps v 0") auto
  from indexOf_from_Some [OF j] show ?thesis using j by (simp add: indexOf_def)
qed

lemma indexOf_absent: "v \<notin> set ps \<Longrightarrow> indexOf ps (Some v) = None"
  by (simp add: indexOf_def indexOf_from_None)

lemma disconnect_room_absent:
  "v \<notin> set (game.players g) \<Longrightarrow> disconnect_room (Some v) r g = (Some g, [])"
  by (simp add: disconnect_room_def indexOf_absent)

lemma disconnect_room_seated:
  assumes "v \<in> set (game.players g)"
  shows "disconnect_room (Some v) r g =
     (let g' = g\<lparr>game.players := remove1 v (game.players g),
                 game.playerNames := AList.delete v (game.playerNames g)\<rparr>
      in if game.players g' = [] then (None, [])
         else (Some g',
               [(ToRoom r, PlayerDisconnected v (length (game.players g'))),
                (ToRoom r, TictactoeState
                   ((state_of g' WinnerNull)\<lparr>st_gameStarted := False, st_gameOver := True\<rparr>))]))"
proof -
  from indexOf_Some_cases [OF assms] obtain j
    where "indexOf (game.players g) (Some v) = Some j"
      and "splice1 (game.players g) j = remove1 v (game.players g)" by blast
  then show ?thesis by (simp add: disconnect_room_def Let_def)
qed

lemma disconnect_games_keys:
  "(r, h) \<in> set (fst (disconnect_games u gs)) \<Longrightarrow> r \<in> fst ` set gs"
  by (induction gs) (force split: prod.splits option.splits)+

lemma disconnect_games_map_of:
  "distinct (map fst gs) \<Longrightarrow>
   map_of (fst (disconnect_games u gs)) r =
     (case map_of gs r of None \<Rightarrow> None | Some g \<Rightarrow> fst (disconnect_room u r g))"
proof (induction gs)
  case Nil
  then show ?case by simp
next
  case (Cons e gs)
  obtain r0 g0 where e: "e = (r0, g0)" by (cases e)
  from Cons.prems e have fresh: "r0 \<notin> fst ` set gs" and dist: "distinct (map fst gs)"
    by auto
  from fresh disconnect_games_keys [of r0 _ u gs]
  have "r0 \<notin> fst ` set (fst (disconnect_games u gs))" by auto
  then have gone: "map_of (fst (disconnect_games u gs)) r0 = None"
    by (simp add: map_of_eq_None_iff)
  show ?case
    using Cons.IH [OF dist] gone e
    by (auto split: prod.splits option.splits)
qed

lemma disconnect_games_out:
  "(r, g) \<in> set gs \<Longrightarrow> e \<in> set (snd (disconnect_room u r g))
     \<Longrightarrow> e \<in> set (snd (disconnect_games u gs))"
  by (induction gs) (force split: prod.splits option.splits)+


lemma disconnect_chess_room_absent:
  "v \<notin> set (players g) \<Longrightarrow> disconnect_chess_room eng (Some v) r g = (Some g, [])"
  by (simp add: disconnect_chess_room_def indexOf_absent)

lemma disconnect_chess_room_seated:
  assumes "v \<in> set (players g)"
  shows "disconnect_chess_room eng (Some v) r g =
     (let g1 = g\<lparr>players := remove1 v (players g),
                 playerNames := AList.delete v (playerNames g),
                 playerColors := AList.delete v (playerColors g)\<rparr>
      in if players g1 = [] then (None, [])
         else (Some (g1\<lparr>gameStarted := False\<rparr>),
               [(ToRoom r, ChessPlayerDisconnected v (length (players g1))),
                (ToRoom r, ChessState
                   ((chess_state_of eng r (g1\<lparr>gameStarted := False\<rparr>) None True)
                      \<lparr>cs_gameStarted := False, cs_gameOver := False, cs_winner := None\<rparr>))]))"
proof -
  from indexOf_Some_cases [OF assms] obtain j
    where "indexOf (players g) (Some v) = Some j"
      and "splice1 (players g) j = remove1 v (players g)" by blast
  then show ?thesis by (simp add: disconnect_chess_room_def Let_def)
qed

lemma disconnect_chessGames_keys:
  "(r, h) \<in> set (fst (disconnect_chessGames eng u cgs)) \<Longrightarrow> r \<in> fst ` set cgs"
  by (induction cgs) (force split: prod.splits option.splits)+

lemma disconnect_chessGames_map_of:
  "distinct (map fst cgs) \<Longrightarrow>
   map_of (fst (disconnect_chessGames eng u cgs)) r =
     (case map_of cgs r of None \<Rightarrow> None | Some g \<Rightarrow> fst (disconnect_chess_room eng u r g))"
proof (induction cgs)
  case Nil
  then show ?case by simp
next
  case (Cons e cgs)
  obtain r0 g0 where e: "e = (r0, g0)" by (cases e)
  from Cons.prems e have fresh: "r0 \<notin> fst ` set cgs" and dist: "distinct (map fst cgs)"
    by auto
  from fresh disconnect_chessGames_keys [of r0 _ eng u cgs]
  have "r0 \<notin> fst ` set (fst (disconnect_chessGames eng u cgs))" by auto
  then have gone: "map_of (fst (disconnect_chessGames eng u cgs)) r0 = None"
    by (simp add: map_of_eq_None_iff)
  show ?case
    using Cons.IH [OF dist] gone e
    by (auto split: prod.splits option.splits)
qed

lemma disconnect_chessGames_out:
  "(r, g) \<in> set cgs \<Longrightarrow> e \<in> set (snd (disconnect_chess_room eng u r g))
     \<Longrightarrow> e \<in> set (snd (disconnect_chessGames eng u cgs))"
  by (induction cgs) (force split: prod.splits option.splits)+

lemma disconnect_fst:
  "userId sock = Some u \<Longrightarrow> u \<noteq> [] \<Longrightarrow>
   disconnect eng sock (gs, cgs) =
     ((fst (disconnect_games (Some u) gs), fst (disconnect_chessGames eng (Some u) cgs)),
      snd (disconnect_games (Some u) gs) @ snd (disconnect_chessGames eng (Some u) cgs))"
  by (simp add: disconnect_def truthy_def split: prod.splits)

lemma remove1_empty_distinct:
  "distinct ps \<Longrightarrow> u \<in> set ps \<Longrightarrow> (remove1 u ps = []) = (ps = [u])"
  by (cases ps) (auto split: if_splits)

text \<open>
  Claim C3. After a disconnect from a grid room that keeps a player, the stored room
  should have \<open>gameStarted = false\<close> and \<open>gameOver = true\<close>. When \<open>bob\<close> leaves the
  started room, the room is told so: the state sent has \<open>gameStarted\<close> false and
  \<open>gameOver\<close> true. The stored room, with \<open>ann\<close> alone in it, keeps \<open>gameStarted = true\<close>
  and \<open>gameOver = false\<close>, and the next move of \<open>ann\<close> is carried out. (The chess sweep
  assigns \<open>gameStarted\<close> in the room; the grid sweep sets the two flags in the payload
  only.)
\<close>

theorem grid_disconnect_leaves_game_running:
  "(let gs1 = fst (fst (disconnect stub_engine bob (started_room, [])));
        sent = snd (disconnect stub_engine bob (started_room, []));
        gs2 = fst (tictactoe_move ann (Some ''r'') (Some ''0'') gs1)
    in map (\<lambda>(r, g). (game.players g, game.gameStarted g, game.gameOver g)) gs1 =
         [([''ann''], True, False)] \<and>
       sent =
         [(ToRoom ''r'', PlayerDisconnected ''bob'' 1),
          (ToRoom ''r'', TictactoeState
             \<lparr>st_board = [Null, Null, Null, Null, Null, Null, Null, Null, Null],
              st_currentPlayer = MarkX, st_players = [''ann''],
              st_playerNames = [(''ann'', ''Ann'')], st_gameStarted = False,
              st_gameOver = True, st_winner = WinnerNull\<rparr>)] \<and>
       map (\<lambda>(r, g). game.board g) gs2 =
         [[Mark MarkX, Null, Null, Null, Null, Null, Null, Null, Null]])"
  by (simp add: started_room_eq ann_def bob_def disconnect_def truthy_def disconnect_room_def
      indexOf_def splice1_def Let_def state_of_def tictactoe_move_def map_get_def board_get_def
      array_index_def is_digit_def elem_def apply_move_def board_set_def)

theorem grid_disconnect_leaves_game_running_witness:
  "map (\<lambda>(r, g). (game.players g, game.gameStarted g, game.gameOver g))
     (fst (fst (disconnect stub_engine bob (started_room, [])))) = [([''ann''], True, False)]"
  using grid_disconnect_leaves_game_running by (simp add: Let_def)

text \<open>
  What the grid sweep does to a room in general: the identity leaves \<open>players\<close> and
  \<open>playerNames\<close>, a room left without players is deleted, and a room that keeps a
  player is sent the notice and the state with the two flags set in the payload.
\<close>

lemma grid_disconnect_sweep:
  assumes sock: "userId sock = Some u" "u \<noteq> []"
    and keys: "distinct (map fst gs)"
    and room: "map_of gs r = Some g"
    and seated: "u \<in> set (game.players g)" "distinct (game.players g)"
  shows "let g' = g\<lparr>game.players := remove1 u (game.players g),
                    game.playerNames := AList.delete u (game.playerNames g)\<rparr>;
             st = fst (disconnect eng sock (gs, cgs));
             out = snd (disconnect eng sock (gs, cgs))
         in u \<notin> set (game.players g') \<and> map_of (game.playerNames g') u = None \<and>
            (if game.players g = [u] then map_of (fst st) r = None
             else map_of (fst st) r = Some g' \<and>
                  (ToRoom r, PlayerDisconnected u (length (game.players g'))) \<in> set out \<and>
                  (ToRoom r, TictactoeState
                     \<lparr>st_board = game.board g, st_currentPlayer = game.currentPlayer g,
                      st_players = game.players g', st_playerNames = game.playerNames g',
                      st_gameStarted = False, st_gameOver = True, st_winner = WinnerNull\<rparr>)
                    \<in> set out)"
proof -
  define g' where "g' = g\<lparr>game.players := remove1 u (game.players g),
                    game.playerNames := AList.delete u (game.playerNames g)\<rparr>"
  have gone: "u \<notin> set (game.players g')" "map_of (game.playerNames g') u = None"
    using seated by (simp_all add: g'_def AList.delete_conv')
  have empty: "(game.players g' = []) = (game.players g = [u])"
    using seated by (simp add: g'_def remove1_empty_distinct)
  have room': "disconnect_room (Some u) r g =
      (if game.players g = [u] then (None, [])
       else (Some g',
             [(ToRoom r, PlayerDisconnected u (length (game.players g'))),
              (ToRoom r, TictactoeState
                 ((state_of g' WinnerNull)\<lparr>st_gameStarted := False, st_gameOver := True\<rparr>))]))"
    using disconnect_room_seated [OF seated(1), of r] empty by (simp add: Let_def g'_def)
  have stored: "map_of (fst (disconnect_games (Some u) gs)) r = fst (disconnect_room (Some u) r g)"
    using disconnect_games_map_of [OF keys, of "Some u" r] room by simp
  have mem: "(r, g) \<in> set gs" using room by (rule map_of_SomeD)
  have sent: "e \<in> set (snd (disconnect_room (Some u) r g))
      \<Longrightarrow> e \<in> set (snd (disconnect eng sock (gs, cgs)))" for e
    using disconnect_games_out [OF mem, of e "Some u"] by (simp add: disconnect_fst [OF sock])
  have shape: "(state_of g' WinnerNull)\<lparr>st_gameStarted := False, st_gameOver := True\<rparr> =
      \<lparr>st_board = game.board g, st_currentPlayer = game.currentPlayer g,
       st_players = game.players g', st_playerNames = game.playerNames g',
       st_gameStarted = False, st_gameOver = True, st_winner = WinnerNull\<rparr>"
    by (simp add: state_of_def g'_def)
  have "if game.players g = [u] then map_of (fst (fst (disconnect eng sock (gs, cgs)))) r = None
        else map_of (fst (fst (disconnect eng sock (gs, cgs)))) r = Some g' \<and>
             (ToRoom r, PlayerDisconnected u (length (game.players g')))
               \<in> set (snd (disconnect eng sock (gs, cgs))) \<and>
             (ToRoom r, TictactoeState
                \<lparr>st_board = game.board g, st_currentPlayer = game.currentPlayer g,
                 st_players = game.players g', st_playerNames = game.playerNames g',
                 st_gameStarted = False, st_gameOver = True, st_winner = WinnerNull\<rparr>)
               \<in> set (snd (disconnect eng sock (gs, cgs)))"
  proof (cases "game.players g = [u]")
    case True
    with stored room' show ?thesis by (simp add: disconnect_fst [OF sock])
  next
    case False
    with room' have out: "snd (disconnect_room (Some u) r g) =
        [(ToRoom r, PlayerDisconnected u (length (game.players g'))),
         (ToRoom r, TictactoeState
            ((state_of g' WinnerNull)\<lparr>st_gameStarted := False, st_gameOver := True\<rparr>))]"
      and st: "fst (disconnect_room (Some u) r g) = Some g'" by simp_all
    have s1: "(ToRoom r, PlayerDisconnected u (length (game.players g')))
        \<in> set (snd (disconnect eng sock (gs, cgs)))"
      by (rule sent) (simp add: out)
    have s2: "(ToRoom r, TictactoeState
            ((state_of g' WinnerNull)\<lparr>st_gameStarted := False, st_gameOver := True\<rparr>))
        \<in> set (snd (disconnect eng sock (gs, cgs)))"
      by (rule sent) (simp add: out)
    from False stored st s1 s2 show ?thesis
      by (simp add: disconnect_fst [OF sock] shape)
  qed
  with gone show ?thesis unfolding Let_def g'_def by simp
qed

text \<open>
  Claim C5. When an identity disconnects from a chess room in which it is seated, its
  seat, name and colour are removed and those of every other player are kept. A room
  left without players is deleted. Otherwise the room stays stored with
  \<open>gameStarted = false\<close>, and with \<open>gameOver\<close> and \<open>winner\<close> as they were.
\<close>

theorem chess_disconnect_sweep:
  assumes sock: "userId sock = Some u" "u \<noteq> []"
    and keys: "distinct (map fst cgs)"
    and room: "map_of cgs r = Some g"
    and seated: "u \<in> set (players g)" "distinct (players g)"
  shows "let g' = g\<lparr>players := remove1 u (players g),
                    playerNames := AList.delete u (playerNames g),
                    playerColors := AList.delete u (playerColors g),
                    gameStarted := False\<rparr>;
             st = fst (disconnect eng sock (gs, cgs))
         in (if players g = [u] then map_of (snd st) r = None
             else map_of (snd st) r = Some g') \<and>
            \<not> gameStarted g' \<and> gameOver g' = gameOver g \<and> winner g' = winner g \<and>
            u \<notin> set (players g') \<and> map_of (playerNames g') u = None \<and>
            map_of (playerColors g') u = None \<and>
            (\<forall>v. v \<noteq> u \<longrightarrow>
               (v \<in> set (players g')) = (v \<in> set (players g)) \<and>
               map_of (playerNames g') v = map_of (playerNames g) v \<and>
               map_of (playerColors g') v = map_of (playerColors g) v)"
proof -
  define g1 where "g1 = g\<lparr>players := remove1 u (players g),
                    playerNames := AList.delete u (playerNames g),
                    playerColors := AList.delete u (playerColors g)\<rparr>"
  have empty: "(players g1 = []) = (players g = [u])"
    using seated by (simp add: g1_def remove1_empty_distinct)
  have room': "fst (disconnect_chess_room eng (Some u) r g) =
      (if players g = [u] then None else Some (g1\<lparr>gameStarted := False\<rparr>))"
    using disconnect_chess_room_seated [OF seated(1), of eng r] empty
    by (simp add: Let_def g1_def)
  have stored: "map_of (snd (fst (disconnect eng sock (gs, cgs)))) r =
      fst (disconnect_chess_room eng (Some u) r g)"
    using disconnect_chessGames_map_of [OF keys, of eng "Some u" r] room
    by (simp add: disconnect_fst [OF sock])
  have frame: "u \<notin> set (players g1)" "map_of (playerNames g1) u = None"
    "map_of (playerColors g1) u = None"
    using seated by (simp_all add: g1_def AList.delete_conv')
  have others: "v \<noteq> u \<Longrightarrow> (v \<in> set (players g1)) = (v \<in> set (players g)) \<and>
      map_of (playerNames g1) v = map_of (playerNames g) v \<and>
      map_of (playerColors g1) v = map_of (playerColors g) v" for v
    by (simp add: g1_def)
  from stored room' frame others show ?thesis
    unfolding Let_def g1_def by simp
qed

theorem chess_disconnect_sweep_witness:
  "map_of (snd (fst (disconnect stub_engine ann ([], chess_room)))) ''4FZYO8'' =
     Some \<lparr>chess = 0, currentPlayer = White, players = [''bob''],
           playerNames = [(''bob'', ''Bob'')], playerColors = [(''bob'', Black)],
           gameStarted = False, gameOver = False, winner = None, moves = [], check = False,
           checkmate = False, stalemate = False\<rparr>"
  using chess_disconnect_sweep [of ann "''ann''" chess_room "''4FZYO8''"
      "\<lparr>chess = 0, currentPlayer = White, players = [''ann'', ''bob''],
        playerNames = [(''ann'', ''Ann''), (''bob'', ''Bob'')],
        playerColors = [(''ann'', White), (''bob'', Black)], gameStarted = True,
        gameOver = False, winner = None, moves = [], check = False, checkmate = False,
        stalemate = False\<rparr>" stub_engine "[]"]
  by (simp add: chess_room_eq ann_def Let_def)

section \<open>The shape of room identifiers\<close>

lemma toUpperCase_lower: "is_lower c \<Longrightarrow> is_upper (toUpperCase_char c)"
proof -
  assume lower: "is_lower c"
  define n where "n = (of_char c :: nat)"
  from lower have range: "97 \<le> n" "n \<le> 122" by (simp_all add: is_lower_def n_def)
  then have "(n - 32) mod 256 = n - 32" by simp
  with range have "65 \<le> (n - 32) mod 256 \<and> (n - 32) mod 256 \<le> 90" by arith
  with lower show ?thesis
    by (simp add: toUpperCase_char_def is_upper_def of_char_of n_def)
qed

lemma toUpperCase_digit: "is_digit c \<Longrightarrow> toUpperCase_char c = c"
  by (simp add: toUpperCase_char_def is_lower_def is_digit_def)

lemma upper_alnum_map:
  "list_all (\<lambda>c. is_digit c \<or> is_lower c) cs \<Longrightarrow>
   list_all (\<lambda>c. is_digit c \<or> is_upper c) (map toUpperCase_char cs)"
  by (induction cs) (auto simp: toUpperCase_lower toUpperCase_digit)

lemma list_all_take: "list_all P xs \<Longrightarrow> list_all P (take n xs)"
  by (auto simp: list_all_iff dest: in_set_takeD)

text \<open>
  Claim C6, as the claim states it: the identifier should have one fixed length for every
  value of the random source. The rendering \<open>0.i\<close> of one half gives an identifier of one
  character, the rendering \<open>0\<close> of zero gives the empty identifier, and a rendering with
  many digits gives six characters.
\<close>

theorem generateRoomId_lengths_differ:
  "base36_rendering ''0.i'' \<and> generateRoomId ''0.i'' = ''I'' \<and>
   base36_rendering ''0'' \<and> generateRoomId ''0'' = [] \<and>
   base36_rendering ''0.4fzyo82mvyr'' \<and> generateRoomId ''0.4fzyo82mvyr'' = ''4FZYO8''"
  by (simp add: base36_rendering_def is_digit_def is_lower_def generateRoomId_def
      substring_def toUpperCase_char_def char_of_def bit_0)

text \<open>
  Claim C6, amended. For every rendering of a random number the identifier consists of
  digits and upper-case letters only, and its length is the number of digits behind the
  point, at most six: six whenever the rendering has six digits or more.
\<close>

theorem generateRoomId_shape:
  assumes "base36_rendering s"
  shows "length (generateRoomId s) = min 6 (length s - 2) \<and>
         list_all (\<lambda>c. is_digit c \<or> is_upper c) (generateRoomId s)"
proof -
  have "list_all (\<lambda>c. is_digit c \<or> is_lower c) (drop 2 s)"
    using assms by (auto simp: base36_rendering_def)
  then have "list_all (\<lambda>c. is_digit c \<or> is_lower c) (take 6 (drop 2 s))"
    by (rule list_all_take)
  then have "list_all (\<lambda>c. is_digit c \<or> is_upper c) (generateRoomId s)"
    by (simp add: generateRoomId_def substring_def upper_alnum_map)
  then show ?thesis by (simp add: generateRoomId_def substring_def)
qed

theorem generateRoomId_shape_witness:
  "length (generateRoomId ''0.4fzyo82mvyr'') = 6 \<and>
   list_all (\<lambda>c. is_digit c \<or> is_upper c) (generateRoomId ''0.4fzyo82mvyr'')"
  using generateRoomId_shape [of "''0.4fzyo82mvyr''"]
  by (simp add: base36_rendering_def is_digit_def is_lower_def)

section \<open>Reset\<close>

text \<open>
  Claim C7. Reset of a room that does not exist changes nothing and sends nothing. Reset
  of a grid room gives the empty board of nine cells, \<open>X\<close> to move and \<open>gameOver\<close>
  cleared; reset of a chess room gives the engine's starting position, white to move,
  \<open>gameOver\<close> and \<open>winner\<close> cleared and an empty move log. In both, the seated players,
  their names, their colours and \<open>gameStarted\<close> stay as they were, whatever the room
  looked like before.
\<close>

theorem reset_restores_initial:
  "(map_get gs roomId = None \<longrightarrow> tictactoe_reset roomId gs = (gs, [])) \<and>
   (map_get cgs roomId = None \<longrightarrow> chess_reset eng roomId cgs = (cgs, [])) \<and>
   (map_get gs roomId = Some g \<longrightarrow>
      (\<exists>g'. map_get (fst (tictactoe_reset roomId gs)) roomId = Some g' \<and>
            game.board g' = replicate 9 Null \<and> game.currentPlayer g' = MarkX \<and>
            \<not> game.gameOver g' \<and> game.players g' = game.players g \<and>
            game.playerNames g' = game.playerNames g \<and>
            game.gameStarted g' = game.gameStarted g)) \<and>
   (map_get cgs roomId = Some h \<longrightarrow>
      (\<exists>h'. map_get (fst (chess_reset eng roomId cgs)) roomId = Some h' \<and>
            chess h' = chess_new eng \<and> currentPlayer h' = White \<and> \<not> gameOver h' \<and>
            winner h' = None \<and> moves h' = [] \<and> players h' = players h \<and>
            playerNames h' = playerNames h \<and> playerColors h' = playerColors h \<and>
            gameStarted h' = gameStarted h))"
  by (cases roomId) (simp_all add: tictactoe_reset_def chess_reset_def map_get_def Let_def
      AList.update_conv')

theorem reset_restores_initial_witness:
  "map (\<lambda>(r, g). (game.board g, game.currentPlayer g, game.gameOver g, game.players g))
     (fst (tictactoe_reset (Some ''r'')
        (fst (tictactoe_move ann (Some ''r'') (Some ''0'') started_room)))) =
   [(replicate 9 Null, MarkX, False, [''ann'', ''bob''])]"
  using reset_restores_initial [of "fst (tictactoe_move ann (Some ''r'') (Some ''0'') started_room)"
     "Some ''r''" "[]" stub_engine]
  by (simp add: started_room_eq ann_def grid_defs tictactoe_reset_def)

section \<open>Colours of chess players\<close>




section \<open>Properties of the sanitizer\<close>

lemma tag_starts_iff:
  "tag_starts cs \<longleftrightarrow> cs \<noteq> [] \<and> hd cs \<noteq> CHR ''>'' \<and> CHR ''>'' \<in> set cs"
  by (cases cs) (auto simp: tag_starts_def not_gt_def dropWhile_eq_Nil_conv)

lemma set_tl_subset: "set (tl xs) \<subseteq> set xs"
  by (cases xs) auto

lemma set_strip_tags: "set (strip_tags s) \<subseteq> set s"
proof (induction s rule: strip_tags.induct)
  case 1
  then show ?case by simp
next
  case (2 c cs)
  show ?case
  proof (cases "c = CHR ''<'' \<and> tag_starts cs")
    case True
    then have "set (strip_tags (c # cs)) \<subseteq> set (tl (dropWhile not_gt cs))"
      using "2.IH"(1) by simp
    also have "\<dots> \<subseteq> set (dropWhile not_gt cs)"
      by (rule set_tl_subset)
    also have "\<dots> \<subseteq> set cs"
      by (auto dest: set_dropWhileD)
    finally show ?thesis by auto
  next
    case False
    then show ?thesis using "2.IH"(2) by auto
  qed
qed

lemma strip_tags_no_start:
  assumes "\<not> tag_starts cs"
  shows "\<not> tag_starts (strip_tags cs)"
proof (cases cs)
  case Nil
  then show ?thesis by (simp add: tag_starts_iff)
next
  case (Cons d ds)
  show ?thesis
  proof (cases "d = CHR ''>''")
    case True
    with Cons show ?thesis by (simp add: tag_starts_iff)
  next
    case False
    with assms Cons have "CHR ''>'' \<notin> set cs" by (simp add: tag_starts_iff)
    with set_strip_tags [of cs] have "CHR ''>'' \<notin> set (strip_tags cs)" by blast
    then show ?thesis by (simp add: tag_starts_iff)
  qed
qed

lemma strip_tags_has_no_tag: "\<not> has_tag (strip_tags s)"
proof (induction s rule: strip_tags.induct)
  case 1
  then show ?case by simp
next
  case (2 c cs)
  show ?case
  proof (cases "c = CHR ''<'' \<and> tag_starts cs")
    case True
    with "2.IH"(1) show ?thesis by simp
  next
    case False
    with "2.IH"(2) have "\<not> has_tag (strip_tags cs)" by simp
    moreover have "\<not> (c = CHR ''<'' \<and> tag_starts (strip_tags cs))"
      using False strip_tags_no_start [of cs] by blast
    moreover from False have "strip_tags (c # cs) = c # strip_tags cs" by auto
    ultimately show ?thesis by simp
  qed
qed

lemma contains_tag_has_tag: "contains_tag s \<Longrightarrow> has_tag s"
proof -
  assume "contains_tag s"
  then obtain pre body post where s: "s = pre @ (CHR ''<'' # body @ [CHR ''>'']) @ post"
    and body: "body \<noteq> []" "CHR ''>'' \<notin> set body"
    by (auto simp: contains_tag_def is_tag_def)
  have "tag_starts (body @ [CHR ''>''] @ post)"
    using body by (cases body) (auto simp: tag_starts_iff)
  then have "has_tag ((CHR ''<'' # body @ [CHR ''>'']) @ post)" by simp
  then have "has_tag (pre @ (CHR ''<'' # body @ [CHR ''>'']) @ post)"
    by (induction pre) simp_all
  with s show ?thesis by simp
qed

lemma strip_tags_removes_tags: "\<not> contains_tag (strip_tags s)"
  using contains_tag_has_tag strip_tags_has_no_tag by blast


lemma trim_splits:
  "\<exists>a b. s = a @ trim s @ b \<and> list_all is_space a \<and> list_all is_space b"
proof -
  define m where "m = dropWhile is_space s"
  have s: "s = takeWhile is_space s @ m" by (simp add: m_def)
  have "m = rev (takeWhile is_space (rev m) @ dropWhile is_space (rev m))"
    by (simp only: takeWhile_dropWhile_id rev_rev_ident)
  then have "m = rev (dropWhile is_space (rev m)) @ rev (takeWhile is_space (rev m))"
    by (simp only: rev_append)
  moreover have "trim s = rev (dropWhile is_space (rev m))"
    by (simp add: trim_def m_def)
  ultimately have m: "m = trim s @ rev (takeWhile is_space (rev m))" by simp
  have a: "list_all is_space (takeWhile is_space s)"
    by (auto simp: list_all_iff dest: set_takeWhileD)
  have b: "list_all is_space (rev (takeWhile is_space (rev m)))"
    by (auto simp: list_all_iff dest: set_takeWhileD)
  from s m have "s = takeWhile is_space s @ trim s @ rev (takeWhile is_space (rev m))"
    by simp
  with a b show ?thesis by blast
qed

lemma trim_ends: "trim s = [] \<or> (\<not> is_space (hd (trim s)) \<and> \<not> is_space (last (trim s)))"
proof (cases "trim s = []")
  case True
  then show ?thesis by simp
next
  case False
  define m where "m = dropWhile is_space s"
  define d where "d = dropWhile is_space (rev m)"
  from False have d: "d \<noteq> []" by (simp add: trim_def d_def m_def)
  have t: "trim s = rev d" by (simp add: trim_def d_def m_def)
  from d have m: "m \<noteq> []" by (auto simp: d_def)
  have "\<not> is_space (hd d)" using d unfolding d_def by (rule hd_dropWhile)
  then have last: "\<not> is_space (last (trim s))" using d by (simp add: t last_rev)
  have "last d = last (rev m)"
  proof -
    have "rev m = takeWhile is_space (rev m) @ d" by (simp add: d_def)
    then have "last (rev m) = last (takeWhile is_space (rev m) @ d)" by simp
    with d show ?thesis by simp
  qed
  then have "hd (trim s) = hd m" using d m by (simp add: t hd_rev last_rev)
  moreover have "\<not> is_space (hd m)" using m unfolding m_def by (rule hd_dropWhile)
  ultimately show ?thesis using last by simp
qed

lemma length_trim: "length (trim s) \<le> length s"
proof -
  obtain a b where "s = a @ trim s @ b" using trim_splits by blast
  then have "length s = length a + length (trim s) + length b"
    by (metis length_append add.assoc)
  then show ?thesis by simp
qed

lemma replace_all_no_head: "p \<notin> set s \<Longrightarrow> replace_all p ps rep s = s"
  by (induction s) auto

lemma decode_entities_plain: "CHR ''&'' \<notin> set s \<Longrightarrow> decode_entities s = s"
  by (simp add: decode_entities_def replace_all_no_head)

lemma decode_samples: 
  "decode_entities ''&amp;'' = ''&'' \<and> decode_entities ''&lt;'' = ''<'' \<and>
   decode_entities ''&gt;'' = ''>'' \<and> decode_entities ''&quot;'' = [CHR 0x22] \<and>
   decode_entities ''&#39;'' = [CHR 0x27]"
  by (simp add: decode_entities_def)

text \<open>
  The five replacements run one after the other on the whole text, the ampersand first,
  so an ampersand that the first pass produces can complete an entity for a later pass.
\<close>

lemma decode_entities_sequential: "decode_entities ''&amp;lt;'' = ''<''"
  by (simp add: decode_entities_def)

text \<open>
  What holds of every text: a missing or empty text gives the empty string, every result
  has at most 200 units and no white space at its ends, the first step leaves no markup
  tag in the text, and a text without \<open>&\<close> is not changed by the decoding.
\<close>

lemma sanitizeMessage_bounds:
  "sanitizeMessage None = [] \<and> sanitizeMessage (Some []) = [] \<and>
   length (sanitizeMessage m) \<le> 200 \<and>
   \<not> contains_tag (strip_tags s) \<and>
   (CHR ''&'' \<notin> set s \<longrightarrow> decode_entities s = s) \<and>
   decode_entities ''&amp;'' = ''&'' \<and> decode_entities ''&lt;'' = ''<'' \<and>
   decode_entities ''&gt;'' = ''>'' \<and> decode_entities ''&quot;'' = [CHR 0x22] \<and>
   decode_entities ''&#39;'' = [CHR 0x27] \<and>
   (\<exists>a b. take 200 (decode_entities (strip_tags s)) = a @ sanitizeMessage (Some s) @ b \<and>
          list_all is_space a \<and> list_all is_space b) \<and>
   (sanitizeMessage m = [] \<or>
      (\<not> is_space (hd (sanitizeMessage m)) \<and> \<not> is_space (last (sanitizeMessage m))))"
proof -
  have len: "length (sanitizeMessage m) \<le> 200"
  proof (cases "truthy m")
    case True
    have "length (trim (take 200 (decode_entities (strip_tags (the m)))))
        \<le> length (take 200 (decode_entities (strip_tags (the m))))"
      by (rule length_trim)
    with True show ?thesis by (simp add: sanitizeMessage_def)
  next
    case False
    then show ?thesis by (simp add: sanitizeMessage_def)
  qed
  have pipeline: "sanitizeMessage (Some s) = trim (take 200 (decode_entities (strip_tags s)))"
    by (cases s) (simp_all add: sanitizeMessage_def truthy_def trim_def decode_entities_def)
  have parts: "\<exists>a b. take 200 (decode_entities (strip_tags s)) = a @ sanitizeMessage (Some s) @ b \<and>
          list_all is_space a \<and> list_all is_space b"
    unfolding pipeline by (rule trim_splits)
  have ends: "sanitizeMessage m = [] \<or>
      (\<not> is_space (hd (sanitizeMessage m)) \<and> \<not> is_space (last (sanitizeMessage m)))"
    using trim_ends [of "take 200 (decode_entities (strip_tags (the m)))"]
    by (simp add: sanitizeMessage_def)
  show ?thesis
    using len parts ends strip_tags_removes_tags [of s] decode_entities_plain [of s]
      decode_samples
    by (simp add: sanitizeMessage_def truthy_def)
qed




section \<open>Well-formed room collections\<close>

text \<open>
  Every handler keeps the two collections well formed, so every state the server reaches
  from the empty one is well formed.
\<close>

lemma list_all_update:
  "list_all P al \<Longrightarrow> P (k, v) \<Longrightarrow> list_all P (AList.update k v al)"
  by (induction al) auto

lemma games_ok_update:
  "games_ok gs \<Longrightarrow> room_ok g \<Longrightarrow> games_ok (AList.update r g gs)"
  by (simp add: games_ok_def list_all_update distinct_update)

lemma games_ok_lookup: "games_ok gs \<Longrightarrow> map_of gs r = Some g \<Longrightarrow> room_ok g"
  by (auto simp: games_ok_def list_all_iff dest: map_of_SomeD)

lemma room_ok_new: "room_ok new_game"
  by (simp add: room_ok_def new_game_def)

lemma tictactoe_join_ok:
  assumes "games_ok gs"
  shows "games_ok (fst (snd (tictactoe_join sock roomId userName gs)))"
proof (cases "\<not> truthy roomId \<or> \<not> truthy userName \<or> \<not> truthy (userId sock)")
  case True
  with assms show ?thesis by (simp add: tictactoe_join_def)
next
  case False
  define r where "r = the roomId"
  define gs1 where "gs1 = (if map_of gs r = None then AList.update r new_game gs else gs)"
  have ok1: "games_ok gs1"
    using assms by (simp add: gs1_def games_ok_update room_ok_new)
  have "map_of gs1 r \<noteq> None"
    by (simp add: gs1_def AList.update_conv')
  then obtain g where g: "map_of gs1 r = Some g" by blast
  with ok1 have rg: "room_ok g" by (rule games_ok_lookup)
  have seat: "u \<notin> set (game.players g) \<Longrightarrow>
      room_ok (g\<lparr>game.players := game.players g @ [u], game.playerNames := ns\<rparr>)" for u ns
    using rg by (simp add: room_ok_def)
  have seat': "u \<notin> set (game.players g) \<Longrightarrow>
      room_ok (g\<lparr>game.players := game.players g @ [u], game.playerNames := ns,
                 game.gameStarted := True\<rparr>)" for u ns
    using rg by (simp add: room_ok_def)
  show ?thesis
    using False ok1 g seat seat'
    by (simp add: tictactoe_join_def Let_def r_def [symmetric] gs1_def [symmetric]
        games_ok_update)
qed


lemma board_set_length:
  "board_get b k = Some Null \<Longrightarrow> length (board_set b k v) = length b"
  by (auto simp: board_get_def board_set_def elem_def split: option.splits if_splits)

lemma apply_move_ok:
  "room_ok g \<Longrightarrow> board_get (game.board g) k = Some Null \<Longrightarrow> room_ok (fst (apply_move g k))"
  by (simp add: apply_move_def Let_def room_ok_def board_set_length)

lemma tictactoe_move_ok:
  assumes "games_ok gs"
  shows "games_ok (fst (tictactoe_move sock roomId index gs))"
proof (cases "map_get gs roomId")
  case None
  with assms show ?thesis by (simp add: tictactoe_move_def)
next
  case (Some g)
  then have "map_of gs (the roomId) = Some g"
    by (cases roomId) (simp_all add: map_get_def)
  with assms have "room_ok g" by (rule games_ok_lookup)
  then have "board_get (game.board g) (the index) = Some Null \<Longrightarrow>
      games_ok (AList.update (the roomId) (fst (apply_move g (the index))) gs)"
    using assms by (simp add: apply_move_ok games_ok_update)
  with assms Some show ?thesis
    by (auto simp: tictactoe_move_def split: option.splits prod.splits)
qed

lemma tictactoe_reset_ok:
  assumes "games_ok gs"
  shows "games_ok (fst (tictactoe_reset roomId gs))"
proof (cases "map_get gs roomId")
  case None
  with assms show ?thesis by (simp add: tictactoe_reset_def)
next
  case (Some g)
  then have "map_of gs (the roomId) = Some g"
    by (cases roomId) (simp_all add: map_get_def)
  with assms have "room_ok g" by (rule games_ok_lookup)
  then have "room_ok (g\<lparr>game.board := replicate 9 Null, game.currentPlayer := MarkX,
      game.gameOver := False\<rparr>)"
    by (simp add: room_ok_def)
  with assms Some show ?thesis
    by (simp add: tictactoe_reset_def Let_def games_ok_update)
qed


lemma disconnect_room_ok:
  assumes "room_ok g" "fst (disconnect_room u r g) = Some g'"
  shows "room_ok g'"
proof (cases u)
  case None
  with assms show ?thesis by (simp add: disconnect_room_def indexOf_def)
next
  case (Some v)
  show ?thesis
  proof (cases "v \<in> set (game.players g)")
    case True
    from disconnect_room_seated [OF True, of r] assms Some show ?thesis
      by (auto simp: Let_def room_ok_def split: if_splits)
  next
    case False
    with assms Some show ?thesis by (simp add: disconnect_room_absent)
  qed
qed

lemma disconnect_games_Cons_fst:
  "fst (disconnect_games u ((r, g) # rest)) =
     (case fst (disconnect_room u r g) of
        None \<Rightarrow> fst (disconnect_games u rest)
      | Some h \<Rightarrow> (r, h) # fst (disconnect_games u rest))"
  by (cases "disconnect_room u r g"; cases "disconnect_games u rest")
    (simp split: option.splits)

lemma disconnect_games_ok:
  "games_ok gs \<Longrightarrow> games_ok (fst (disconnect_games u gs))"
proof (induction gs)
  case Nil
  then show ?case by simp
next
  case (Cons e gs)
  obtain r0 g0 where e: "e = (r0, g0)" by (cases e)
  from Cons.prems e have fresh: "r0 \<notin> fst ` set gs" and rest: "games_ok gs"
    and head: "room_ok g0"
    by (auto simp: games_ok_def)
  from Cons.IH [OF rest] have ih: "games_ok (fst (disconnect_games u gs))" .
  from fresh disconnect_games_keys [of r0 _ u gs]
  have fresh': "r0 \<notin> fst ` set (fst (disconnect_games u gs))" by auto
  show ?case
  proof (cases "fst (disconnect_room u r0 g0)")
    case None
    with ih e show ?thesis by (simp only: disconnect_games_Cons_fst option.case)
  next
    case (Some g')
    with head have "room_ok g'" by (rule disconnect_room_ok)
    with ih fresh' have "games_ok ((r0, g') # fst (disconnect_games u gs))"
      by (simp add: games_ok_def)
    with Some e show ?thesis by (simp only: disconnect_games_Cons_fst option.case)
  qed
qed


lemma chessGames_ok_update:
  "chessGames_ok cgs \<Longrightarrow> distinct (players g) \<Longrightarrow> chessGames_ok (AList.update r g cgs)"
  by (simp add: chessGames_ok_def list_all_update distinct_update)

lemma chessGames_ok_lookup:
  "chessGames_ok cgs \<Longrightarrow> map_get cgs roomId = Some g \<Longrightarrow> distinct (players g)"
  by (cases roomId) (auto simp: chessGames_ok_def map_get_def list_all_iff dest: map_of_SomeD)

lemma chess_create_room_ok:
  "chessGames_ok cgs \<Longrightarrow>
   chessGames_ok (fst (snd (chess_create_room eng rendering sock userName cgs)))"
  by (simp add: chess_create_room_def Let_def createChessGame_def chessGames_ok_update)

lemma chess_join_room_ok:
  assumes "chessGames_ok cgs"
  shows "chessGames_ok (fst (snd (chess_join_room eng sock roomId userName cgs)))"
proof (cases "map_get cgs roomId")
  case None
  with assms show ?thesis by (simp add: chess_join_room_def)
next
  case (Some g)
  with assms have "distinct (players g)" by (rule chessGames_ok_lookup)
  with assms Some show ?thesis
    by (simp add: chess_join_room_def Let_def chessGames_ok_update)
qed

lemma validateAndExecuteMove_players:
  "players (fst (validateAndExecuteMove eng g from to promotion)) = players g"
  by (simp add: validateAndExecuteMove_def Let_def split: option.splits move_outcome.splits)

lemma record_move_players:
  "players (record_move g from to c now chk mate stale mv) = players g"
  by (simp add: record_move_def Let_def)

lemma chess_move_handler_ok:
  assumes "chessGames_ok cgs"
  shows "chessGames_ok (fst (chess_move_handler eng now sock roomId from to promotion cgs))"
proof (cases "map_get cgs roomId")
  case None
  with assms show ?thesis by (simp add: chess_move_handler_def)
next
  case (Some g)
  with assms have d: "distinct (players g)" by (rule chessGames_ok_lookup)
  have "chessGames_ok (AList.update r g' cgs)"
    if "players g' = players g" for r g'
    using that assms d by (simp add: chessGames_ok_update)
  note upd = this
  show ?thesis
  proof (cases "validateAndExecuteMove eng g (the from) (the to) promotion")
    case (Pair g1 res)
    then have p1: "players g1 = players g"
      using validateAndExecuteMove_players [of eng g "the from" "the to" promotion] by simp
    with assms Some Pair upd show ?thesis
      by (cases res)
        (simp_all add: chess_move_handler_def Let_def record_move_players
          split: option.splits)
  qed
qed

lemma chess_reset_ok:
  assumes "chessGames_ok cgs"
  shows "chessGames_ok (fst (chess_reset eng roomId cgs))"
proof (cases "map_get cgs roomId")
  case None
  with assms show ?thesis by (simp add: chess_reset_def)
next
  case (Some g)
  with assms have "distinct (players g)" by (rule chessGames_ok_lookup)
  with assms Some show ?thesis
    by (simp add: chess_reset_def Let_def chessGames_ok_update)
qed

lemma disconnect_chess_room_ok:
  assumes "distinct (players g)" "fst (disconnect_chess_room eng u r g) = Some g'"
  shows "distinct (players g')"
proof (cases u)
  case None
  with assms show ?thesis by (simp add: disconnect_chess_room_def indexOf_def)
next
  case (Some v)
  show ?thesis
  proof (cases "v \<in> set (players g)")
    case True
    from disconnect_chess_room_seated [OF True, of eng r] assms Some show ?thesis
      by (auto simp: Let_def split: if_splits)
  next
    case False
    with assms Some show ?thesis by (simp add: disconnect_chess_room_absent)
  qed
qed

lemma disconnect_chessGames_Cons_fst:
  "fst (disconnect_chessGames eng u ((r, g) # rest)) =
     (case fst (disconnect_chess_room eng u r g) of
        None \<Rightarrow> fst (disconnect_chessGames eng u rest)
      | Some h \<Rightarrow> (r, h) # fst (disconnect_chessGames eng u rest))"
  by (cases "disconnect_chess_room eng u r g"; cases "disconnect_chessGames eng u rest")
    (simp split: option.splits)

lemma disconnect_chessGames_ok:
  "chessGames_ok cgs \<Longrightarrow> chessGames_ok (fst (disconnect_chessGames eng u cgs))"
proof (induction cgs)
  case Nil
  then show ?case by simp
next
  case (Cons e cgs)
  obtain r0 g0 where e: "e = (r0, g0)" by (cases e)
  from Cons.prems e have fresh: "r0 \<notin> fst ` set cgs" and rest: "chessGames_ok cgs"
    and head: "distinct (players g0)"
    by (auto simp: chessGames_ok_def)
  from Cons.IH [OF rest] have ih: "chessGames_ok (fst (disconnect_chessGames eng u cgs))" .
  from fresh disconnect_chessGames_keys [of r0 _ eng u cgs]
  have fresh': "r0 \<notin> fst ` set (fst (disconnect_chessGames eng u cgs))" by auto
  show ?case
  proof (cases "fst (disconnect_chess_room eng u r0 g0)")
    case None
    with ih e show ?thesis by (simp only: disconnect_chessGames_Cons_fst option.case)
  next
    case (Some g')
    with head have "distinct (players g')" by (rule disconnect_chess_room_ok)
    with ih fresh' have "chessGames_ok ((r0, g') # fst (disconnect_chessGames eng u cgs))"
      by (simp add: chessGames_ok_def)
    with Some e show ?thesis by (simp only: disconnect_chessGames_Cons_fst option.case)
  qed
qed

lemma handle_ok:
  assumes "games_ok (fst st)" "chessGames_ok (snd st)"
  shows "games_ok (fst (fst (snd (handle eng sock a st)))) \<and>
         chessGames_ok (snd (fst (snd (handle eng sock a st))))"
proof -
  obtain gs cgs where st: "st = (gs, cgs)" by (cases st)
  with assms have ok: "games_ok gs" "chessGames_ok cgs" by simp_all
  show ?thesis
  proof (cases a)
    case (TictactoeJoin roomId userName)
    with st ok tictactoe_join_ok [of gs sock roomId userName] show ?thesis
      by (simp add: case_prod_beta)
  next
    case (TictactoeMove roomId index)
    with st ok tictactoe_move_ok [of gs sock roomId index] show ?thesis
      by (simp add: case_prod_beta)
  next
    case (TictactoeReset roomId)
    with st ok tictactoe_reset_ok [of gs roomId] show ?thesis
      by (simp add: case_prod_beta)
  next
    case (ChessCreateRoom rendering userName)
    with st ok chess_create_room_ok [of cgs eng rendering sock userName] show ?thesis
      by (simp add: case_prod_beta)
  next
    case (ChessJoinRoom roomId userName)
    with st ok chess_join_room_ok [of cgs eng sock roomId userName] show ?thesis
      by (simp add: case_prod_beta)
  next
    case (ChessMove now roomId src dst promotion)
    with st ok chess_move_handler_ok [of cgs eng now sock roomId src dst promotion]
    show ?thesis by (simp add: case_prod_beta)
  next
    case (ChessReset roomId)
    with st ok chess_reset_ok [of cgs eng roomId] show ?thesis
      by (simp add: case_prod_beta)
  next
    case (ChessChatMessage timestamp roomId userName message)
    with st ok show ?thesis by simp
  next
    case Disconnect
    with st ok disconnect_games_ok [of gs "userId sock"]
      disconnect_chessGames_ok [of cgs eng "userId sock"]
    show ?thesis by (simp add: disconnect_def case_prod_beta)
  qed
qed

lemma run_ok:
  "games_ok (fst st) \<Longrightarrow> chessGames_ok (snd st) \<Longrightarrow>
   games_ok (fst (run eng acts st)) \<and> chessGames_ok (snd (run eng acts st))"
proof (induction acts arbitrary: st)
  case Nil
  then show ?case by simp
next
  case (Cons e acts)
  obtain sock a where e: "e = (sock, a)" by (cases e)
  from handle_ok [OF Cons.prems, of eng sock a]
  have "games_ok (fst (fst (snd (handle eng sock a st))))"
    and "chessGames_ok (snd (fst (snd (handle eng sock a st))))" by simp_all
  from Cons.IH [OF this] e show ?case by simp
qed

lemma started_room_ok: "games_ok started_room"
  by (simp add: started_room_eq games_ok_def room_ok_def)

section \<open>Moves and the cells of the board\<close>

lemma outside_not_null:
  assumes "length b = 9" "\<not> addresses_cell (Some k)"
  shows "board_get b k \<noteq> Some Null"
  using assms
  by (auto simp: addresses_cell_def board_get_def elem_def split: option.splits)

lemma move_outside_rejected:
  assumes ok: "games_ok gs" and out: "\<not> addresses_cell index"
  shows "\<exists>m. tictactoe_move sock roomId index gs = (gs, [(ToSender, TictactoeError m)]) \<and>
             (truthy roomId \<and> index \<noteq> None \<and>
              (\<exists>g. map_get gs roomId = Some g \<and> game.gameStarted g \<and> \<not> game.gameOver g)
              \<longrightarrow> m = CellOccupied)"
proof (cases "\<not> truthy roomId \<or> index = None")
  case True
  then show ?thesis by (auto simp: tictactoe_move_def)
next
  case False
  then obtain k where k: "index = Some k" and r: "truthy roomId" by auto
  show ?thesis
  proof (cases "map_get gs roomId")
    case None
    with k r show ?thesis by (simp add: tictactoe_move_def)
  next
    case (Some g)
    then have "map_of gs (the roomId) = Some g"
      by (cases roomId) (simp_all add: map_get_def)
    with ok have "room_ok g" by (rule games_ok_lookup)
    then have "board_get (game.board g) k \<noteq> Some Null"
      using out k by (simp add: room_ok_def outside_not_null)
    with Some k r show ?thesis by (simp add: tictactoe_move_def)
  qed
qed

lemma move_writes_one_cell:
  assumes ok: "games_ok gs" and room: "map_get gs roomId = Some g"
  shows "\<exists>g'. map_get (fst (tictactoe_move sock roomId index gs)) roomId = Some g' \<and>
     (game.board g' = game.board g \<or>
      (\<exists>i<9. array_index (the index) = Some i \<and> game.board g ! i = Null \<and>
             game.board g' = (game.board g)[i := Mark (game.currentPlayer g)]))"
proof -
  from room obtain r where r: "roomId = Some r" and look: "map_of gs r = Some g"
    by (cases roomId) (simp_all add: map_get_def)
  from ok look have len: "length (game.board g) = 9"
    using games_ok_lookup [of gs r g] by (simp add: room_ok_def)
  show ?thesis
  proof (cases "fst (tictactoe_move sock roomId index gs) = gs")
    case True
    with room show ?thesis by simp
  next
    case False
    then have null: "board_get (game.board g) (the index) = Some Null"
      and upd: "fst (tictactoe_move sock roomId index gs) =
          AList.update r (fst (apply_move g (the index))) gs"
      using room r
      by (auto simp: tictactoe_move_def case_prod_beta split: if_splits option.splits)
    from null obtain i where i: "array_index (the index) = Some i"
      and e: "elem (game.board g) i = Null"
      by (auto simp: board_get_def split: option.splits)
    from e len have lt: "i < 9" and at: "game.board g ! i = Null"
      by (auto simp: elem_def split: if_splits)
    have "game.board (fst (apply_move g (the index))) =
        (game.board g)[i := Mark (game.currentPlayer g)]"
      using i lt len by (simp add: apply_move_def Let_def board_set_def)
    with upd r i lt at show ?thesis
      by (simp add: map_get_def AList.update_conv')
  qed
qed

text \<open>
  Claim C10, as the claim states it: a move whose index is outside \<open>0\<close> to \<open>8\<close> should be
  answered with the cell-occupied error. With \<open>ann\<close> alone in the room, her move to index
  9 is answered with the error that the game has not started.
\<close>

theorem outside_move_before_start:
  "(let gs1 = fst (snd (tictactoe_join ann (Some ''r'') (Some ''Ann'') []))
    in \<not> addresses_cell (Some ''9'') \<and>
       tictactoe_move ann (Some ''r'') (Some ''9'') gs1 =
         (gs1, [(ToSender, TictactoeError GameNotStarted)]))"
  by (simp add: ann_def grid_defs addresses_cell_def replicate_9)

text \<open>
  Claim C10, amended. A move whose index addresses none of the cells \<open>0\<close> to \<open>8\<close> is
  rejected with one error to the sender and nothing is written; the error is the
  cell-occupied one whenever the move data is there and the room exists, has started and
  is not over, and otherwise that of the earlier check that fails. A move changes the
  board of its room, if at all, by writing the mover's mark into one empty cell among
  \<open>0\<close> to \<open>8\<close>. In every state the server reaches, every board has exactly nine cells.
\<close>

theorem grid_moves_stay_on_board:
  "(games_ok gs \<and> \<not> addresses_cell index \<longrightarrow>
      (\<exists>m. tictactoe_move sock roomId index gs = (gs, [(ToSender, TictactoeError m)]) \<and>
           (truthy roomId \<and> index \<noteq> None \<and>
            (\<exists>g. map_get gs roomId = Some g \<and> game.gameStarted g \<and> \<not> game.gameOver g)
            \<longrightarrow> m = CellOccupied))) \<and>
   (games_ok gs \<and> map_get gs roomId = Some g \<longrightarrow>
      (\<exists>g'. map_get (fst (tictactoe_move sock roomId index gs)) roomId = Some g' \<and>
         (game.board g' = game.board g \<or>
          (\<exists>i<9. array_index (the index) = Some i \<and> game.board g ! i = Null \<and>
                 game.board g' = (game.board g)[i := Mark (game.currentPlayer g)])))) \<and>
   games_ok (fst (run eng acts ([], [])))"
proof -
  have "games_ok []" "chessGames_ok ([] :: 'a chessGames)"
    by (simp_all add: games_ok_def chessGames_ok_def)
  then have "games_ok (fst (run eng acts ([], [])))"
    using run_ok [of "([], [])" eng acts] by simp
  then show ?thesis
    using move_outside_rejected [of gs index sock roomId]
      move_writes_one_cell [of gs roomId g sock index]
    by blast
qed

theorem grid_moves_stay_on_board_witness:
  "tictactoe_move ann (Some ''r'') (Some ''9'') started_room =
     (started_room, [(ToSender, TictactoeError CellOccupied)])"
  using grid_moves_stay_on_board [of started_room "Some ''9''" ann "Some ''r''" _ stub_engine "[]"]
  by (simp add: started_room_ok addresses_cell_def array_index_def is_digit_def truthy_def)
   (simp add: started_room_eq map_get_def)

section \<open>Rejected actions\<close>

text \<open>
  Handler by handler: when an error event is among the events sent, the room collection
  is what it was and that error, addressed to the sender, is the only event. The
  disconnect handler sends no error at all.
\<close>

lemma tictactoe_join_error:
  assumes "(t, e) \<in> set (snd (snd (tictactoe_join sock roomId userName gs)))" "is_error e"
  shows "fst (snd (tictactoe_join sock roomId userName gs)) = gs \<and>
         snd (snd (tictactoe_join sock roomId userName gs)) = [(ToSender, e)]"
proof (cases "\<not> truthy roomId \<or> \<not> truthy userName \<or> \<not> truthy (userId sock)")
  case True
  with assms show ?thesis by (auto simp: tictactoe_join_def)
next
  case False
  show ?thesis
  proof (cases "map_of gs (the roomId)")
    case None
    with False assms show ?thesis
      by (auto simp: tictactoe_join_def Let_def AList.update_conv' new_game_def is_error_def)
  next
    case (Some g)
    with False assms show ?thesis
      by (auto simp: tictactoe_join_def Let_def is_error_def split: if_splits)
  qed
qed

lemma tictactoe_move_error:
  assumes "(t, e) \<in> set (snd (tictactoe_move sock roomId index gs))" "is_error e"
  shows "fst (tictactoe_move sock roomId index gs) = gs \<and>
         snd (tictactoe_move sock roomId index gs) = [(ToSender, e)]"
  using assms
  by (auto simp: tictactoe_move_def is_error_def case_prod_beta split: if_splits option.splits)

lemma tictactoe_reset_error:
  assumes "(t, e) \<in> set (snd (tictactoe_reset roomId gs))" "is_error e"
  shows "fst (tictactoe_reset roomId gs) = gs \<and>
         snd (tictactoe_reset roomId gs) = [(ToSender, e)]"
  using assms
  by (auto simp: tictactoe_reset_def is_error_def Let_def split: option.splits)

lemma chess_create_room_error:
  assumes "(t, e) \<in> set (snd (snd (chess_create_room eng rendering sock userName cgs)))"
    "is_error e"
  shows "fst (snd (chess_create_room eng rendering sock userName cgs)) = cgs \<and>
         snd (snd (chess_create_room eng rendering sock userName cgs)) = [(ToSender, e)]"
  using assms
  by (auto simp: chess_create_room_def is_error_def Let_def split: if_splits)

lemma chess_join_room_error:
  assumes "(t, e) \<in> set (snd (snd (chess_join_room eng sock roomId userName cgs)))"
    "is_error e"
  shows "fst (snd (chess_join_room eng sock roomId userName cgs)) = cgs \<and>
         snd (snd (chess_join_room eng sock roomId userName cgs)) = [(ToSender, e)]"
  using assms
  by (auto simp: chess_join_room_def is_error_def Let_def split: if_splits option.splits)

lemma validate_invalid_unchanged:
  "validateAndExecuteMove eng g src dst promotion = (g1, Invalid err) \<Longrightarrow> g1 = g"
  by (auto simp: validateAndExecuteMove_def Let_def
      split: option.splits if_splits move_outcome.splits)

lemma chess_move_handler_error:
  assumes "(t, e) \<in> set (snd (chess_move_handler eng now sock roomId src dst promotion cgs))"
    "is_error e"
  shows "fst (chess_move_handler eng now sock roomId src dst promotion cgs) = cgs \<and>
         snd (chess_move_handler eng now sock roomId src dst promotion cgs) = [(ToSender, e)]"
proof (cases "map_get cgs roomId")
  case None
  with assms show ?thesis
    by (auto simp: chess_move_handler_def is_error_def split: if_splits)
next
  case (Some g)
  then have look: "map_of cgs (the roomId) = Some g"
    by (cases roomId) (simp_all add: map_get_def)
  obtain g1 res where v: "validateAndExecuteMove eng g (the src) (the dst) promotion = (g1, res)"
    by (cases "validateAndExecuteMove eng g (the src) (the dst) promotion")
  show ?thesis
  proof (cases res)
    case (Invalid err)
    with v have "g1 = g" by (simp add: validate_invalid_unchanged)
    with look have "AList.update (the roomId) g1 cgs = cgs" by (simp add: AList.update_triv)
    with assms Some v Invalid show ?thesis
      by (auto simp: chess_move_handler_def is_error_def split: if_splits option.splits)
  next
    case (Valid chk mate stale mv)
    with assms Some v show ?thesis
      by (auto simp: chess_move_handler_def is_error_def Let_def
          split: if_splits option.splits)
  qed
qed

lemma chess_reset_error:
  assumes "(t, e) \<in> set (snd (chess_reset eng roomId cgs))" "is_error e"
  shows "fst (chess_reset eng roomId cgs) = cgs \<and>
         snd (chess_reset eng roomId cgs) = [(ToSender, e)]"
  using assms
  by (auto simp: chess_reset_def is_error_def Let_def split: option.splits)

lemma chess_chat_message_error:
  assumes "(t, e) \<in> set (chess_chat_message timestamp sock roomId userName message cgs)"
    "is_error e"
  shows "chess_chat_message timestamp sock roomId userName message cgs = [(ToSender, e)]"
  using assms
  by (auto simp: chess_chat_message_def is_error_def split: if_splits)

lemma disconnect_room_no_error:
  "(t, e) \<in> set (snd (disconnect_room u r g)) \<Longrightarrow> \<not> is_error e"
  by (auto simp: disconnect_room_def is_error_def Let_def split: option.splits if_splits)

lemma disconnect_games_no_error:
  "(t, e) \<in> set (snd (disconnect_games u gs)) \<Longrightarrow> \<not> is_error e"
proof (induction gs)
  case Nil
  then show ?case by simp
next
  case (Cons x gs)
  obtain r g where x: "x = (r, g)" by (cases x)
  from Cons.prems x have "(t, e) \<in> set (snd (disconnect_room u r g)) \<or>
      (t, e) \<in> set (snd (disconnect_games u gs))"
    by (auto simp: case_prod_beta)
  with Cons.IH disconnect_room_no_error show ?case by blast
qed

lemma disconnect_chess_room_no_error:
  "(t, e) \<in> set (snd (disconnect_chess_room eng u r g)) \<Longrightarrow> \<not> is_error e"
  by (auto simp: disconnect_chess_room_def is_error_def Let_def split: option.splits if_splits)

lemma disconnect_chessGames_no_error:
  "(t, e) \<in> set (snd (disconnect_chessGames eng u cgs)) \<Longrightarrow> \<not> is_error e"
proof (induction cgs)
  case Nil
  then show ?case by simp
next
  case (Cons x cgs)
  obtain r g where x: "x = (r, g)" by (cases x)
  from Cons.prems x have "(t, e) \<in> set (snd (disconnect_chess_room eng u r g)) \<or>
      (t, e) \<in> set (snd (disconnect_chessGames eng u cgs))"
    by (auto simp: case_prod_beta)
  with Cons.IH disconnect_chess_room_no_error show ?case by blast
qed

lemma disconnect_no_error:
  "(t, e) \<in> set (snd (disconnect eng sock st)) \<Longrightarrow> \<not> is_error e"
  using disconnect_games_no_error [of t e "userId sock" "fst st"]
    disconnect_chessGames_no_error [of t e eng "userId sock" "snd st"]
  by (auto simp: disconnect_def case_prod_beta split: if_splits)


lemma handle_error:
  assumes "(t, e) \<in> set (snd (snd (handle eng sock a st)))" "is_error e"
  shows "fst (snd (handle eng sock a st)) = st \<and>
         snd (snd (handle eng sock a st)) = [(ToSender, e)]"
proof -
  obtain gs cgs where st: "st = (gs, cgs)" by (cases st)
  show ?thesis
  proof (cases a)
    case (TictactoeJoin roomId userName)
    with assms st tictactoe_join_error [of t e sock roomId userName gs] show ?thesis
      by (simp add: case_prod_beta)
  next
    case (TictactoeMove roomId index)
    with assms st tictactoe_move_error [of t e sock roomId index gs] show ?thesis
      by (simp add: case_prod_beta)
  next
    case (TictactoeReset roomId)
    with assms st tictactoe_reset_error [of t e roomId gs] show ?thesis
      by (simp add: case_prod_beta)
  next
    case (ChessCreateRoom rendering userName)
    with assms st chess_create_room_error [of t e eng rendering sock userName cgs]
    show ?thesis by (simp add: case_prod_beta)
  next
    case (ChessJoinRoom roomId userName)
    with assms st chess_join_room_error [of t e eng sock roomId userName cgs]
    show ?thesis by (simp add: case_prod_beta)
  next
    case (ChessMove now roomId src dst promotion)
    with assms st chess_move_handler_error [of t e eng now sock roomId src dst promotion cgs]
    show ?thesis by (simp add: case_prod_beta)
  next
    case (ChessReset roomId)
    with assms st chess_reset_error [of t e eng roomId cgs] show ?thesis
      by (simp add: case_prod_beta)
  next
    case (ChessChatMessage timestamp roomId userName message)
    with assms st chess_chat_message_error [of t e timestamp sock roomId userName message cgs]
    show ?thesis by simp
  next
    case Disconnect
    with assms st disconnect_no_error [of t e eng sock "(gs, cgs)"] show ?thesis
      by (simp add: case_prod_beta)
  qed
qed

lemma no_piece_rejected:
  assumes "truthy roomId" "truthy src" "truthy dst" "map_get cgs roomId = Some g"
    "gameStarted g" "\<not> gameOver g"
    "map_of (playerColors g) (property_key (userId sock)) = Some (currentPlayer g)"
    "chess_get eng (chess g) (the src) = None"
  shows "chess_move_handler eng now sock roomId src dst promotion cgs =
     (cgs, [(ToSender, ChessError (NoPieceFound (the src)))])"
proof -
  from assms(4) have "map_of cgs (the roomId) = Some g"
    by (cases roomId) (simp_all add: map_get_def)
  then have "AList.update (the roomId) g cgs = cgs" by (rule AList.update_triv)
  with assms show ?thesis
    by (simp add: chess_move_handler_def validateAndExecuteMove_def)
qed

text \<open>
  Claim C4. Whenever a handler answers with an error event, both room collections (and
  so every room's board or position, players, names, colours, player to move, move log
  and flags) are unchanged, and that error, sent to the originating connection, is the
  only event. In particular a chess move that passes the handler's checks and whose
  \<open>from\<close> square holds no piece is answered with the no-piece error and changes nothing.
\<close>

theorem rejected_action_changes_nothing:
  "((t, e) \<in> set (snd (snd (handle eng sock a st))) \<and> is_error e \<longrightarrow>
      fst (snd (handle eng sock a st)) = st \<and>
      snd (snd (handle eng sock a st)) = [(ToSender, e)]) \<and>
   (truthy roomId \<and> truthy src \<and> truthy dst \<and> map_get cgs roomId = Some g \<and>
    gameStarted g \<and> \<not> gameOver g \<and>
    map_of (playerColors g) (property_key (userId sock)) = Some (currentPlayer g) \<and>
    chess_get eng (chess g) (the src) = None \<longrightarrow>
      handle eng sock (ChessMove now roomId src dst promotion) (gs, cgs) =
        (sock, (gs, cgs), [(ToSender, ChessError (NoPieceFound (the src)))]))"
  using handle_error [of t e eng sock a st]
    no_piece_rejected [of roomId src dst cgs g sock eng now promotion]
  by simp

theorem rejected_action_changes_nothing_witness:
  "handle stub_engine ann (ChessMove 7 (Some ''4FZYO8'') (Some ''a1'') (Some ''a2'') None)
     ([], chess_room) =
   (ann, ([], chess_room), [(ToSender, ChessError (NoPieceFound ''a1''))])"
  using rejected_action_changes_nothing [of ToSender "ChessError (NoPieceFound ''a1'')"
     stub_engine ann "ChessMove 7 (Some ''4FZYO8'') (Some ''a1'') (Some ''a2'') None"
     "([], chess_room)" "Some ''4FZYO8''" "Some ''a1''" "Some ''a2''" chess_room _ 7 None "[]"]
  by (simp add: chess_room_eq ann_def truthy_def map_get_def property_key_def stub_engine_def)

end
